theory Spec2Isabelle
  imports Complex_Main "HOL-Library.AList"
begin

section \<open>JavaScript numbers\<close>

text \<open>
  The source is TypeScript (\<^verbatim>\<open>src/lib/animation-queue.ts\<close>). Its \<^verbatim>\<open>number\<close> values are
  IEEE 754 doubles. A finite double is modelled by the real number it stands for, and the
  results of arithmetic are \<open>jsnumber\<close>s: finite values, the negative zero, the two
  infinities and NaN. \<open>Num 0\<close> is the positive zero. Every sum, difference and quotient is
  rounded to the nearest double, ties to the even significand, as the hardware does. The
  numbers the browser hands to the code (timestamps, clock readings, options, priorities)
  are finite doubles and are kept as reals.
\<close>

datatype jsnumber = Num real | NegZero | PosInfinity | NegInfinity | NaN

text \<open>Powers of two with an integer exponent.\<close>

definition pow2 :: "int \<Rightarrow> real" where
  "pow2 e = (if 0 \<le> e then 2 ^ nat e else 1 / 2 ^ nat (- e))"

text \<open>
  The exponent of the binade of \<open>x\<close>, not below that of the subnormal numbers; doubles in
  that binade are the multiples of \<open>pow2 (binade x - 52)\<close>.
\<close>

definition binade :: "real \<Rightarrow> int" where
  "binade x = max \<lfloor>log 2 \<bar>x\<bar>\<rfloor> (- 1022)"

definition round_half_even :: "real \<Rightarrow> int" where
  "round_half_even y =
     (let n = \<lfloor>y\<rfloor>; r = y - of_int n
      in if r < 1 / 2 then n else if 1 / 2 < r then n + 1 else if even n then n else n + 1)"

definition maxDouble :: real where
  "maxDouble = (2 ^ 53 - 1) * 2 ^ 971"

text \<open>
  Rounding a real number to a double: to the nearest multiple of the binade's unit, to an
  infinity when that exceeds the largest double, to a zero of the number's sign when it
  vanishes.
\<close>

definition to_double :: "real \<Rightarrow> jsnumber" where
  "to_double x =
     (if x = 0 then Num 0
      else (let q = pow2 (binade x - 52);
                n = round_half_even (x / q);
                r = of_int n * q
            in if n = 0 then (if x < 0 then NegZero else Num 0)
               else if maxDouble < \<bar>r\<bar> then (if x < 0 then NegInfinity else PosInfinity)
               else Num r))"

text \<open>The value of a decimal literal of the source, such as \<^verbatim>\<open>16.67\<close>: the nearest double.\<close>

definition literal :: "real \<Rightarrow> real" where
  "literal x = (case to_double x of Num r \<Rightarrow> r | _ \<Rightarrow> 0)"

fun js_neg :: "jsnumber \<Rightarrow> jsnumber" where
  "js_neg (Num x) = (if x = 0 then NegZero else Num (- x))"
| "js_neg NegZero = Num 0"
| "js_neg PosInfinity = NegInfinity"
| "js_neg NegInfinity = PosInfinity"
| "js_neg NaN = NaN"

fun js_add :: "jsnumber \<Rightarrow> jsnumber \<Rightarrow> jsnumber" where
  "js_add NaN b = NaN"
| "js_add a NaN = NaN"
| "js_add PosInfinity NegInfinity = NaN"
| "js_add NegInfinity PosInfinity = NaN"
| "js_add PosInfinity b = PosInfinity"
| "js_add a PosInfinity = PosInfinity"
| "js_add NegInfinity b = NegInfinity"
| "js_add a NegInfinity = NegInfinity"
| "js_add NegZero NegZero = NegZero"
| "js_add NegZero (Num y) = Num y"
| "js_add (Num x) NegZero = Num x"
| "js_add (Num x) (Num y) = (if x + y = 0 then Num 0 else to_double (x + y))"

definition js_sub :: "jsnumber \<Rightarrow> jsnumber \<Rightarrow> jsnumber" where
  "js_sub a b = js_add a (js_neg b)"

text \<open>The sign bit, and the zero and the infinity of a given sign.\<close>

fun negative :: "jsnumber \<Rightarrow> bool" where
  "negative (Num x) = (x < 0)"
| "negative NegZero = True"
| "negative NegInfinity = True"
| "negative PosInfinity = False"
| "negative NaN = False"

definition is_zero :: "jsnumber \<Rightarrow> bool" where
  "is_zero a = (a = Num 0 \<or> a = NegZero)"

definition is_infinite :: "jsnumber \<Rightarrow> bool" where
  "is_infinite a = (a = PosInfinity \<or> a = NegInfinity)"

definition js_div :: "jsnumber \<Rightarrow> jsnumber \<Rightarrow> jsnumber" where
  "js_div a b =
     (if a = NaN \<or> b = NaN then NaN
      else (let neg = (negative a \<noteq> negative b);
                infinity = (if neg then NegInfinity else PosInfinity);
                zero = (if neg then NegZero else Num 0)
            in if is_infinite a then (if is_infinite b then NaN else infinity)
               else if is_infinite b then zero
               else if is_zero b then (if is_zero a then NaN else infinity)
               else if is_zero a then zero
               else (case (a, b) of (Num x, Num y) \<Rightarrow> to_double (x / y) | _ \<Rightarrow> NaN)))"

text \<open>Comparisons of a computed number with a finite one; every comparison with NaN is false.\<close>

fun js_ge :: "jsnumber \<Rightarrow> real \<Rightarrow> bool" where
  "js_ge (Num x) c = (c \<le> x)"
| "js_ge NegZero c = (c \<le> 0)"
| "js_ge PosInfinity c = True"
| "js_ge NegInfinity c = False"
| "js_ge NaN c = False"

fun js_gt :: "jsnumber \<Rightarrow> real \<Rightarrow> bool" where
  "js_gt (Num x) c = (c < x)"
| "js_gt NegZero c = (c < 0)"
| "js_gt PosInfinity c = True"
| "js_gt NegInfinity c = False"
| "js_gt NaN c = False"

fun js_lt :: "jsnumber \<Rightarrow> real \<Rightarrow> bool" where
  "js_lt (Num x) c = (x < c)"
| "js_lt NegZero c = (0 < c)"
| "js_lt PosInfinity c = False"
| "js_lt NegInfinity c = True"
| "js_lt NaN c = False"

text \<open>
  \<^verbatim>\<open>Math.round\<close>: the nearest integer, a tie going up; the negative zero for a negative
  number that rounds to zero.
\<close>

fun js_round :: "jsnumber \<Rightarrow> jsnumber" where
  "js_round (Num x) =
     (if \<lfloor>x + 1 / 2\<rfloor> = 0 \<and> x < 0 then NegZero else Num (of_int \<lfloor>x + 1 / 2\<rfloor>))"
| "js_round NegZero = NegZero"
| "js_round PosInfinity = PosInfinity"
| "js_round NegInfinity = NegInfinity"
| "js_round NaN = NaN"

section \<open>Sets of strings\<close>

text \<open>
  A JavaScript \<^verbatim>\<open>Set<string>\<close> keeps its members in insertion order and without
  duplicates; it is a list here, so that \<^verbatim>\<open>size\<close> is \<^const>\<open>length\<close>.
\<close>

definition set_has :: "string \<Rightarrow> string list \<Rightarrow> bool" where
  "set_has x xs = (x \<in> set xs)"

definition set_add :: "string \<Rightarrow> string list \<Rightarrow> string list" where
  "set_add x xs = (if x \<in> set xs then xs else xs @ [x])"

definition set_delete :: "string \<Rightarrow> string list \<Rightarrow> string list" where
  "set_delete x xs = removeAll x xs"

section \<open>The performance monitor\<close>

datatype QualityLevel = Ultra | High | Medium | Low | Minimal

text \<open>
  \<^verbatim>\<open>enum AnimationPriority\<close> is a numeric enum; the code compares priorities as numbers
  and \<^verbatim>\<open>staggerAnimations\<close> adds fractions to them, so a priority is a number.
\<close>

type_synonym AnimationPriority = real

definition CRITICAL :: AnimationPriority where "CRITICAL = 0"
definition HIGH :: AnimationPriority where "HIGH = 1"
definition MEDIUM :: AnimationPriority where "MEDIUM = 2"
definition LOW :: AnimationPriority where "LOW = 3"

record PerformanceMetrics =
  m_fps :: jsnumber
  m_frameTime :: jsnumber
  m_droppedFrames :: nat
  m_memoryUsage :: jsnumber
  m_animationCount :: nat

text \<open>
  The fields of \<^verbatim>\<open>class AnimationPerformanceMonitor\<close>. The subscribers in
  \<^verbatim>\<open>callbacks\<close> are foreign code; what the monitor does to them is hand each one the
  metrics, so the model keeps the metrics of every \<^verbatim>\<open>notifyCallbacks\<close> run in
  \<open>notifications\<close>.
\<close>

record AnimationPerformanceMonitor =
  frameTimings :: "jsnumber list"
  lastFrameTime :: real
  droppedFrames :: nat
  qualityLevel :: QualityLevel
  animationBudget :: real
  activeAnimations :: "string list"
  monitorRafId :: "nat option"
  notifications :: "PerformanceMetrics list"

definition initialMonitor :: AnimationPerformanceMonitor where
  "initialMonitor =
     \<lparr>frameTimings = [], lastFrameTime = 0, droppedFrames = 0, qualityLevel = High,
      animationBudget = literal 16.67, activeAnimations = [], monitorRafId = None,
      notifications = []\<rparr>"

definition getAverageFrameTime :: "AnimationPerformanceMonitor \<Rightarrow> jsnumber" where
  "getAverageFrameTime m =
     (if length (frameTimings m) = 0 then Num (literal 16.67)
      else js_div (foldl (\<lambda>a b. js_add a b) (Num 0) (frameTimings m))
             (Num (real (length (frameTimings m)))))"

definition adjustQuality :: "AnimationPerformanceMonitor \<Rightarrow> AnimationPerformanceMonitor" where
  "adjustQuality m =
     (let avgFrameTime = getAverageFrameTime m;
          fps = js_div (Num 1000) avgFrameTime;
          droppedFrameRatio = js_div (Num (real (droppedFrames m)))
                                (Num (real (length (frameTimings m))));
          m1 = m\<lparr>droppedFrames := 0\<rparr>
      in if js_ge fps 55 \<and> js_lt droppedFrameRatio (literal 0.05) then
           m1\<lparr>qualityLevel := Ultra, animationBudget := literal 16.67\<rparr>
         else if js_ge fps 50 \<and> js_lt droppedFrameRatio (literal 0.1) then
           m1\<lparr>qualityLevel := High, animationBudget := 20\<rparr>
         else if js_ge fps 40 \<and> js_lt droppedFrameRatio (literal 0.15) then
           m1\<lparr>qualityLevel := Medium, animationBudget := 25\<rparr>
         else if js_ge fps 30 then
           m1\<lparr>qualityLevel := Low, animationBudget := literal 33.33\<rparr>
         else
           m1\<lparr>qualityLevel := Minimal, animationBudget := 50\<rparr>)"

definition getCurrentFPS :: "AnimationPerformanceMonitor \<Rightarrow> jsnumber" where
  "getCurrentFPS m = js_round (js_div (Num 1000) (getAverageFrameTime m))"

definition registerAnimation ::
  "string \<Rightarrow> AnimationPerformanceMonitor \<Rightarrow> AnimationPerformanceMonitor" where
  "registerAnimation i m = m\<lparr>activeAnimations := set_add i (activeAnimations m)\<rparr>"

definition unregisterAnimation ::
  "string \<Rightarrow> AnimationPerformanceMonitor \<Rightarrow> AnimationPerformanceMonitor" where
  "unregisterAnimation i m = m\<lparr>activeAnimations := set_delete i (activeAnimations m)\<rparr>"

fun getMaxConcurrentAnimations :: "QualityLevel \<Rightarrow> real" where
  "getMaxConcurrentAnimations Ultra = 10"
| "getMaxConcurrentAnimations High = 7"
| "getMaxConcurrentAnimations Medium = 5"
| "getMaxConcurrentAnimations Low = 3"
| "getMaxConcurrentAnimations Minimal = 1"

definition shouldSkipAnimation :: "AnimationPerformanceMonitor \<Rightarrow> AnimationPriority \<Rightarrow> bool" where
  "shouldSkipAnimation m priority =
     (let maxAnimations = getMaxConcurrentAnimations (qualityLevel m)
      in if real (length (activeAnimations m)) \<ge> maxAnimations then priority \<ge> MEDIUM
         else (case qualityLevel m of
                 Minimal \<Rightarrow> priority > CRITICAL
               | Low \<Rightarrow> priority > HIGH
               | Medium \<Rightarrow> priority > MEDIUM
               | _ \<Rightarrow> False))"

section \<open>The animation queue\<close>

text \<open>
  The callbacks of an item are foreign code. The model keeps what the queue can observe of
  them: whether \<^verbatim>\<open>execute\<close> returns, throws or hands back a promise (and how that promise
  settles), and whether \<^verbatim>\<open>cleanup\<close> returns or throws. A callback is taken not to call
  back into the queue or the monitor. The field \<^verbatim>\<open>id\<close> of an item is \<open>item_id\<close> here.
\<close>

datatype promise = Fulfils | Rejects string | NeverSettles

datatype execute_behaviour = ReturnsVoid | ThrowsError string | ReturnsPromise promise

datatype cleanup_behaviour = CleanupReturns | CleanupThrows string

record AnimationQueueItem =
  item_id :: string
  priority :: AnimationPriority
  execute :: execute_behaviour
  cleanup :: "cleanup_behaviour option"
  duration :: "real option"
  timestamp :: "real option"

record QueueOptions =
  opt_maxConcurrent :: "real option"
  opt_autoStart :: "bool option"
  opt_frameBudget :: "real option"

text \<open>
  The fields of \<^verbatim>\<open>class AnimationQueue\<close>. \<^verbatim>\<open>executing\<close> is a \<^verbatim>\<open>Map\<close>: an association
  list in insertion order (\<^const>\<open>AList.update\<close> replaces the value of a present key in
  place, as \<^verbatim>\<open>Map.set\<close> does), whose \<^verbatim>\<open>size\<close> is its length.
\<close>

record AnimationQueue =
  queue :: "AnimationQueueItem list"
  executing :: "(string \<times> AnimationQueueItem) list"
  maxConcurrent :: real
  isRunning :: bool
  frameBudget :: real
  frameStartTime :: real
  rafId :: "nat option"
  completedAnimations :: "string list"

datatype frame_callback = QueueProcess | MonitorMeasure

datatype suspension = AwaitPromise promise | AwaitDelay real

datatype callback_call = ExecuteCall string | CleanupCall string

text \<open>
  Everything the module's code reads and writes: the queue, the singleton monitor, and the
  browser around them. \<open>clock\<close> gives the successive readings of \<^verbatim>\<open>performance.now()\<close>
  (\<open>ticks\<close> counts the readings made), \<open>rafPending\<close> holds the frame callbacks scheduled
  with \<^verbatim>\<open>requestAnimationFrame\<close> (handles are positive), \<open>console\<close> the lines of
  \<^verbatim>\<open>console.error\<close>, \<open>calls\<close> the callbacks the queue has invoked, \<open>suspended\<close> the
  \<^verbatim>\<open>executeAnimation\<close> runs waiting at an \<^verbatim>\<open>await\<close>, and \<open>perfMemory\<close> the pair
  \<^verbatim>\<open>usedJSHeapSize\<close>, \<^verbatim>\<open>jsHeapSizeLimit\<close> of \<^verbatim>\<open>performance.memory\<close> where it exists.
\<close>

record world =
  aq :: AnimationQueue
  pm :: AnimationPerformanceMonitor
  clock :: "nat \<Rightarrow> real"
  ticks :: nat
  rafLast :: nat
  rafPending :: "(nat \<times> frame_callback) list"
  console :: "(string \<times> string) list"
  calls :: "callback_call list"
  suspended :: "(AnimationQueueItem \<times> suspension) list"
  perfMemory :: "(real \<times> real) option"

definition performance_now :: "world \<Rightarrow> real \<times> world" where
  "performance_now w = (clock w (ticks w), w\<lparr>ticks := Suc (ticks w)\<rparr>)"

definition requestAnimationFrame :: "frame_callback \<Rightarrow> world \<Rightarrow> nat \<times> world" where
  "requestAnimationFrame cb w =
     (let h = Suc (rafLast w)
      in (h, w\<lparr>rafLast := h, rafPending := rafPending w @ [(h, cb)]\<rparr>))"

definition cancelAnimationFrame :: "nat \<Rightarrow> world \<Rightarrow> world" where
  "cancelAnimationFrame h w = w\<lparr>rafPending := filter (\<lambda>p. fst p \<noteq> h) (rafPending w)\<rparr>"

text \<open>Truthiness of an optional number: defined and not 0.\<close>

fun truthy :: "real option \<Rightarrow> bool" where
  "truthy None = False"
| "truthy (Some v) = (v \<noteq> 0)"

fun truthy_handle :: "nat option \<Rightarrow> bool" where
  "truthy_handle None = False"
| "truthy_handle (Some h) = (h \<noteq> 0)"

definition map_has :: "string \<Rightarrow> (string \<times> 'v) list \<Rightarrow> bool" where
  "map_has k al = (k \<in> set (map fst al))"

subsection \<open>The monitor's frame callback\<close>

definition getMemoryUsage :: "world \<Rightarrow> jsnumber" where
  "getMemoryUsage w =
     (case perfMemory w of
        Some (usedJSHeapSize, jsHeapSizeLimit) \<Rightarrow>
          js_div (Num usedJSHeapSize) (Num jsHeapSizeLimit)
      | None \<Rightarrow> Num 0)"

definition getMetrics :: "world \<Rightarrow> PerformanceMetrics" where
  "getMetrics w =
     \<lparr>m_fps = getCurrentFPS (pm w),
      m_frameTime = getAverageFrameTime (pm w),
      m_droppedFrames = droppedFrames (pm w),
      m_memoryUsage = getMemoryUsage w,
      m_animationCount = length (activeAnimations (pm w))\<rparr>"

definition notifyCallbacks :: "world \<Rightarrow> world" where
  "notifyCallbacks w = w\<lparr>pm := (pm w)\<lparr>notifications := notifications (pm w) @ [getMetrics w]\<rparr>\<rparr>"

text \<open>
  \<^verbatim>\<open>measure\<close>, the closure of \<^verbatim>\<open>startMonitoring\<close> that runs once per frame; \<open>stamp\<close>
  is its \<^verbatim>\<open>timestamp\<close> argument.
\<close>

definition measure_frame :: "real \<Rightarrow> world \<Rightarrow> world" where
  "measure_frame stamp w =
     (let m = pm w;
          w1 = (if lastFrameTime m \<noteq> 0 then
                  (let frameTime = js_sub (Num stamp) (Num (lastFrameTime m));
                       m1 = m\<lparr>frameTimings := frameTimings m @ [frameTime]\<rparr>;
                       m2 = (if length (frameTimings m1) > 60
                             then m1\<lparr>frameTimings := tl (frameTimings m1)\<rparr> else m1);
                       m3 = (if js_gt frameTime 33
                             then m2\<lparr>droppedFrames := droppedFrames m2 + 1\<rparr> else m2)
                   in if length (frameTimings m3) = 60
                      then notifyCallbacks (w\<lparr>pm := adjustQuality m3\<rparr>)
                      else w\<lparr>pm := m3\<rparr>)
                else w);
          w2 = w1\<lparr>pm := (pm w1)\<lparr>lastFrameTime := stamp\<rparr>\<rparr>;
          (h, w3) = requestAnimationFrame MonitorMeasure w2
      in w3\<lparr>pm := (pm w3)\<lparr>monitorRafId := Some h\<rparr>\<rparr>)"

text \<open>The frames the browser delivers, one timestamp each, in order.\<close>

definition measure_frames :: "real list \<Rightarrow> world \<Rightarrow> world" where
  "measure_frames ts w = foldl (\<lambda>v t. measure_frame t v) w ts"

subsection \<open>Queue operations\<close>

text \<open>\<^verbatim>\<open>Array.prototype.findIndex\<close>: the first index whose element satisfies \<open>P\<close>, or -1.\<close>

fun findIndex :: "('a \<Rightarrow> bool) \<Rightarrow> 'a list \<Rightarrow> int" where
  "findIndex P [] = - 1"
| "findIndex P (x # xs) =
     (if P x then 0 else (let i = findIndex P xs in if i = - 1 then - 1 else i + 1))"

text \<open>\<^verbatim>\<open>xs.splice(i, 0, x)\<close> for an index \<open>i\<close> in range.\<close>

definition splice_insert :: "int \<Rightarrow> 'a \<Rightarrow> 'a list \<Rightarrow> 'a list" where
  "splice_insert i x xs = take (nat i) xs @ [x] @ drop (nat i) xs"

definition processQueue :: "world \<Rightarrow> world" where
  "processQueue w =
     (if \<not> isRunning (aq w) then w
      else if \<not> truthy_handle (rafId (aq w)) then
        (let (h, w1) = requestAnimationFrame QueueProcess w
         in w1\<lparr>aq := (aq w1)\<lparr>rafId := Some h\<rparr>\<rparr>)
      else w)"

definition add :: "AnimationQueueItem \<Rightarrow> world \<Rightarrow> world" where
  "add item w =
     (if set_has (item_id item) (completedAnimations (aq w))
         \<or> map_has (item_id item) (executing (aq w)) then w
      else
        (let (now, w1) = performance_now w;
             item1 = item\<lparr>timestamp := Some now\<rparr>;
             insertIndex = findIndex (\<lambda>queueItem. priority queueItem > priority item1)
                             (queue (aq w1));
             w2 = (if insertIndex = - 1
                   then w1\<lparr>aq := (aq w1)\<lparr>queue := queue (aq w1) @ [item1]\<rparr>\<rparr>
                   else w1\<lparr>aq := (aq w1)\<lparr>queue := splice_insert insertIndex item1 (queue (aq w1))\<rparr>\<rparr>);
             w3 = w2\<lparr>pm := registerAnimation (item_id item1) (pm w2)\<rparr>
         in if isRunning (aq w3) then processQueue w3 else w3))"

definition addBatch :: "AnimationQueueItem list \<Rightarrow> world \<Rightarrow> world" where
  "addBatch items w = foldl (\<lambda>v item. add item v) w items"

definition start :: "world \<Rightarrow> world" where
  "start w = (if isRunning (aq w) then w else processQueue (w\<lparr>aq := (aq w)\<lparr>isRunning := True\<rparr>\<rparr>))"

definition pause :: "world \<Rightarrow> world" where
  "pause w =
     (let w1 = w\<lparr>aq := (aq w)\<lparr>isRunning := False\<rparr>\<rparr>
      in if truthy_handle (rafId (aq w1)) then
           (let w2 = cancelAnimationFrame (the (rafId (aq w1))) w1
            in w2\<lparr>aq := (aq w2)\<lparr>rafId := None\<rparr>\<rparr>)
         else w1)"

text \<open>The constructor: the fields' initial values, the options' defaults, the auto start.\<close>

definition new_AnimationQueue :: "QueueOptions \<Rightarrow> world \<Rightarrow> world" where
  "new_AnimationQueue options w =
     (let q = \<lparr>queue = [], executing = [],
               maxConcurrent = (if truthy (opt_maxConcurrent options)
                                then the (opt_maxConcurrent options) else 3),
               isRunning = False,
               frameBudget = (if truthy (opt_frameBudget options)
                              then the (opt_frameBudget options) else literal 16.67),
               frameStartTime = 0, rafId = None, completedAnimations = []\<rparr>;
          w1 = w\<lparr>aq := q\<rparr>
      in if opt_autoStart options \<noteq> Some False then start w1 else w1)"

subsection \<open>Running an animation\<close>

definition console_error :: "string \<Rightarrow> string \<Rightarrow> world \<Rightarrow> world" where
  "console_error msg err w = w\<lparr>console := console w @ [(msg, err)]\<rparr>"

text \<open>The \<^verbatim>\<open>finally\<close> block of \<^verbatim>\<open>executeAnimation\<close>.\<close>

definition finishAnimation :: "AnimationQueueItem \<Rightarrow> world \<Rightarrow> world" where
  "finishAnimation item w =
     (let w1 = (case cleanup item of
                  None \<Rightarrow> w
                | Some CleanupReturns \<Rightarrow> w\<lparr>calls := calls w @ [CleanupCall (item_id item)]\<rparr>
                | Some (CleanupThrows err) \<Rightarrow>
                    console_error (''Animation '' @ item_id item @ '' cleanup failed:'') err
                      (w\<lparr>calls := calls w @ [CleanupCall (item_id item)]\<rparr>));
          w2 = w1\<lparr>aq := (aq w1)\<lparr>executing := AList.delete (item_id item) (executing (aq w1))\<rparr>\<rparr>;
          w3 = w2\<lparr>aq := (aq w2)\<lparr>completedAnimations :=
                              set_add (item_id item) (completedAnimations (aq w2))\<rparr>\<rparr>;
          w4 = w3\<lparr>pm := unregisterAnimation (item_id item) (pm w3)\<rparr>
      in if length (completedAnimations (aq w4)) > 100
         then w4\<lparr>aq := (aq w4)\<lparr>completedAnimations := []\<rparr>\<rparr>
         else w4)"

text \<open>
  The \<^verbatim>\<open>try\<close> block from the point where \<^verbatim>\<open>execute\<close> has returned, or its promise has
  been fulfilled: wait for the duration when there is one, else go on to \<^verbatim>\<open>finally\<close>.
\<close>

definition afterExecute :: "AnimationQueueItem \<Rightarrow> world \<Rightarrow> world" where
  "afterExecute item w =
     (if truthy (duration item)
      then w\<lparr>suspended := suspended w @ [(item, AwaitDelay (the (duration item)))]\<rparr>
      else finishAnimation item w)"

text \<open>
  \<^verbatim>\<open>executeAnimation\<close> up to its first \<^verbatim>\<open>await\<close>, which is all of it when \<^verbatim>\<open>execute\<close>
  throws, or returns no promise and the item has no duration.
\<close>

definition executeAnimation :: "AnimationQueueItem \<Rightarrow> world \<Rightarrow> world" where
  "executeAnimation item w =
     (let w1 = w\<lparr>aq := (aq w)\<lparr>executing := AList.update (item_id item) item (executing (aq w))\<rparr>\<rparr>;
          w2 = w1\<lparr>calls := calls w1 @ [ExecuteCall (item_id item)]\<rparr>
      in case execute item of
           ThrowsError err \<Rightarrow>
             finishAnimation item
               (console_error (''Animation '' @ item_id item @ '' failed:'') err w2)
         | ReturnsVoid \<Rightarrow> afterExecute item w2
         | ReturnsPromise p \<Rightarrow> w2\<lparr>suspended := suspended w2 @ [(item, AwaitPromise p)]\<rparr>)"


subsection \<open>The queue's frame callback\<close>

definition hasFrameBudget :: "world \<Rightarrow> bool \<times> world" where
  "hasFrameBudget w =
     (let (now, w1) = performance_now w;
          elapsed = js_sub (Num now) (Num (frameStartTime (aq w1)));
          adjustedBudget = (case qualityLevel (pm w1) of
                              Minimal \<Rightarrow> 8
                            | Low \<Rightarrow> 12
                            | Medium \<Rightarrow> 16
                            | _ \<Rightarrow> frameBudget (aq w1))
      in (js_lt elapsed adjustedBudget, w1))"

lemma queue_finishAnimation: "queue (aq (finishAnimation item w)) = queue (aq w)"
  by (simp add: finishAnimation_def console_error_def Let_def
      split: option.splits cleanup_behaviour.splits)

lemma queue_afterExecute: "queue (aq (afterExecute item w)) = queue (aq w)"
  by (simp add: afterExecute_def queue_finishAnimation)

lemma queue_executeAnimation: "queue (aq (executeAnimation item w)) = queue (aq w)"
  by (simp add: executeAnimation_def Let_def queue_finishAnimation queue_afterExecute
      console_error_def split: execute_behaviour.splits)

lemma queue_hasFrameBudget: "queue (aq (snd (hasFrameBudget w))) = queue (aq w)"
  by (simp add: hasFrameBudget_def performance_now_def Let_def)

text \<open>The \<^verbatim>\<open>while\<close> loop of \<^verbatim>\<open>process\<close>; every round takes one item off the queue.\<close>

function processLoop :: "world \<Rightarrow> world" where
  "processLoop w =
     (if length (queue (aq w)) > 0 \<and> real (length (executing (aq w))) < maxConcurrent (aq w)
      then (case hasFrameBudget w of
              (False, w1) \<Rightarrow> w1
            | (True, w1) \<Rightarrow>
                (case queue (aq w1) of
                   [] \<Rightarrow> w1
                 | item # rest \<Rightarrow>
                     (let w2 = w1\<lparr>aq := (aq w1)\<lparr>queue := rest\<rparr>\<rparr>
                      in if shouldSkipAnimation (pm w2) (priority item)
                         then processLoop (w2\<lparr>pm := unregisterAnimation (item_id item) (pm w2)\<rparr>)
                         else processLoop (executeAnimation item w2))))
      else w)"
  by pat_completeness auto
termination
proof (relation "measure (\<lambda>w. length (queue (aq w)))")
  show "wf (measure (\<lambda>w. length (queue (aq w))))"
    by simp
next
  fix w b w1 item rest w2
  assume "(b, w1) = hasFrameBudget w" and "queue (aq w1) = item # rest"
    and w2: "w2 = w1\<lparr>aq := aq w1\<lparr>queue := rest\<rparr>\<rparr>"
  then have "queue (aq w) = item # rest"
    using queue_hasFrameBudget [of w] by (metis snd_conv)
  then show "(w2\<lparr>pm := unregisterAnimation (item_id item) (pm w2)\<rparr>, w)
               \<in> measure (\<lambda>w. length (queue (aq w)))"
    by (simp add: w2)
next
  fix w b w1 item rest w2
  assume "(b, w1) = hasFrameBudget w" and "queue (aq w1) = item # rest"
    and w2: "w2 = w1\<lparr>aq := aq w1\<lparr>queue := rest\<rparr>\<rparr>"
  then have "queue (aq w) = item # rest"
    using queue_hasFrameBudget [of w] by (metis snd_conv)
  then show "(executeAnimation item w2, w) \<in> measure (\<lambda>w. length (queue (aq w)))"
    by (simp add: w2 queue_executeAnimation)
qed

declare processLoop.simps [simp del]

text \<open>\<^verbatim>\<open>process\<close>, the closure of \<^verbatim>\<open>processQueue\<close> that runs once per frame.\<close>

definition process_frame :: "world \<Rightarrow> world" where
  "process_frame w =
     (let (now, w1) = performance_now w;
          w2 = w1\<lparr>aq := (aq w1)\<lparr>frameStartTime := now\<rparr>\<rparr>;
          w3 = processLoop w2
      in if length (queue (aq w3)) > 0 \<or> length (executing (aq w3)) > 0 then
           (let (h, w4) = requestAnimationFrame QueueProcess w3
            in w4\<lparr>aq := (aq w4)\<lparr>rafId := Some h\<rparr>\<rparr>)
         else w3\<lparr>aq := (aq w3)\<lparr>rafId := None\<rparr>\<rparr>)"

section \<open>Browser globals\<close>

text \<open>
  What \<^verbatim>\<open>prefersReducedMotion\<close> and \<^verbatim>\<open>isLowEndDevice\<close> read. On a server neither
  \<^verbatim>\<open>window\<close> nor (in older runtimes) \<^verbatim>\<open>navigator\<close> exists; reading a property of a missing
  global, or calling a missing method, throws, which is the \<open>Inl\<close> of the result.
\<close>

datatype js_error = TypeError | ReferenceError

record Window =
  matchMedia :: "(string \<Rightarrow> bool) option"

record NetworkInformation =
  saveData :: "bool option"
  effectiveType :: "string option"

record Navigator =
  connection :: "NetworkInformation option"
  deviceMemory :: "real option"
  hardwareConcurrency :: "real option"

record globals =
  window :: "Window option"
  navigator :: "Navigator option"

definition prefersReducedMotion :: "globals \<Rightarrow> js_error + bool" where
  "prefersReducedMotion g =
     (case window g of
        None \<Rightarrow> Inr False
      | Some win \<Rightarrow>
          (case matchMedia win of
             None \<Rightarrow> Inl TypeError
           | Some mediaQuery \<Rightarrow> Inr (mediaQuery ''(prefers-reduced-motion: reduce)'')))"

definition isLowEndDevice :: "globals \<Rightarrow> js_error + bool" where
  "isLowEndDevice g =
     (case window g of
        None \<Rightarrow> Inr False
      | Some win \<Rightarrow>
          (case prefersReducedMotion g of
             Inl e \<Rightarrow> Inl e
           | Inr True \<Rightarrow> Inr True
           | Inr False \<Rightarrow>
               (case navigator g of
                  None \<Rightarrow> Inl ReferenceError
                | Some nav \<Rightarrow>
                    if (case connection nav of
                          None \<Rightarrow> False
                        | Some c \<Rightarrow> saveData c = Some True \<or> effectiveType c = Some ''2g'')
                    then Inr True
                    else if truthy (deviceMemory nav) \<and> the (deviceMemory nav) < 4 then Inr True
                    else if truthy (hardwareConcurrency nav) \<and> the (hardwareConcurrency nav) < 4
                    then Inr True
                    else Inr False)))"

section \<open>Concrete states\<close>

text \<open>
  A browser in which the module has just been loaded: the monitor's constructor has scheduled
  its first frame callback, a queue has been constructed with no item in it and not started,
  and the \<open>n\<close>-th reading of the clock is \<open>n\<close> milliseconds.
\<close>

definition startMonitoring :: "world \<Rightarrow> world" where
  "startMonitoring w =
     (let (h, w1) = requestAnimationFrame MonitorMeasure w
      in w1\<lparr>pm := (pm w1)\<lparr>monitorRafId := Some h\<rparr>\<rparr>)"

definition freshWorld :: world where
  "freshWorld =
     new_AnimationQueue \<lparr>opt_maxConcurrent = None, opt_autoStart = Some False, opt_frameBudget = None\<rparr>
       (startMonitoring
          \<lparr>aq = \<lparr>queue = [], executing = [], maxConcurrent = 0, isRunning = False,
                 frameBudget = 0, frameStartTime = 0, rafId = None, completedAnimations = []\<rparr>,
           pm = initialMonitor, clock = real, ticks = 0, rafLast = 0, rafPending = [],
           console = [], calls = [], suspended = [], perfMemory = None\<rparr>)"

text \<open>
  Sixty frames, the first at 1000 ms: four frames of 40 ms and 55 of 10 ms follow it. One
  more frame of 10 ms, at 1720 ms, completes the first window of 60 samples; its average
  frame time is 12 ms, and four of its frames are longer than 33 ms.
\<close>

definition jankyPrefix :: "real list" where
  "jankyPrefix =
     1000 # map (\<lambda>k. 1000 + 40 * real k) [1..<5] @ map (\<lambda>k. 1160 + 10 * real k) [1..<56]"

definition jankyTimestamps :: "real list" where
  "jankyTimestamps = jankyPrefix @ [1720]"

text \<open>The monitor at the end of a window of 60 frames of 10 ms, none of them dropped.\<close>

definition smoothMonitor :: AnimationPerformanceMonitor where
  "smoothMonitor =
     initialMonitor\<lparr>frameTimings := map (\<lambda>k. Num 10) [0..<60], lastFrameTime := 1600\<rparr>"

text \<open>
  A window of 20 frames of 34 ms and 40 of 33 ms. It sums to 2000 ms: in exact arithmetic the
  average FPS is 30, in double arithmetic the average frame time is 33.333333333333336 ms
  and the FPS 29.999999999999996.
\<close>

definition edgeMonitor :: AnimationPerformanceMonitor where
  "edgeMonitor =
     initialMonitor\<lparr>frameTimings := map (\<lambda>k. Num 34) [0..<20] @ map (\<lambda>k. Num 33) [0..<40],
                      lastFrameTime := 3000\<rparr>"

text \<open>A decorative animation that returns at once, and one whose callbacks both throw.\<close>

definition decorItem :: AnimationQueueItem where
  "decorItem =
     \<lparr>item_id = ''sparkle'', priority = LOW, execute = ReturnsVoid, cleanup = None,
      duration = None, timestamp = None\<rparr>"




text \<open>
  A monitor that has fallen to the minimal quality level, and one optional animation queued;
  and a frame in which 20 ms have passed when the queue looks at its first item.
\<close>

definition strainedWorld :: world where
  "strainedWorld =
     add decorItem
       (freshWorld\<lparr>pm := (pm freshWorld)\<lparr>qualityLevel := Minimal, animationBudget := 50\<rparr>\<rparr>)"





definition serverGlobals :: globals where
  "serverGlobals = \<lparr>window = None, navigator = None\<rparr>"

text \<open>Two nice-to-have animations with a critical one added between them.\<close>

definition batch :: "AnimationQueueItem list" where
  "batch =
     [decorItem\<lparr>item_id := ''m1'', priority := MEDIUM\<rparr>,
      decorItem\<lparr>item_id := ''c1'', priority := CRITICAL\<rparr>,
      decorItem\<lparr>item_id := ''m2'', priority := MEDIUM\<rparr>]"


text \<open>An animation whose \<^verbatim>\<open>execute\<close> hands back a promise that is still pending.\<close>

definition pendingItem :: AnimationQueueItem where
  "pendingItem = decorItem\<lparr>item_id := ''fade'', execute := ReturnsPromise NeverSettles\<rparr>"

section \<open>Notions used in the statements\<close>

text \<open>
  The quality level as the specification words it: the tier of the window's average FPS
  alone, with the thresholds 55, 50, 40 and 30.
\<close>

definition spec_qualityLevel :: "jsnumber \<Rightarrow> QualityLevel" where
  "spec_qualityLevel fps =
     (if js_ge fps 55 then Ultra
      else if js_ge fps 50 then High
      else if js_ge fps 40 then Medium
      else if js_ge fps 30 then Low
      else Minimal)"

text \<open>
  The quality level as the code decides it: the FPS tier, with the three upper tiers open
  only while the monitor's count of dropped frames, divided by the 60 samples, is below
  0.05, 0.1 and 0.15.
\<close>

definition amended_qualityLevel :: "jsnumber \<Rightarrow> nat \<Rightarrow> QualityLevel" where
  "amended_qualityLevel fps dropped =
     (let ratio = js_div (Num (real dropped)) (Num 60)
      in if js_ge fps 55 \<and> js_lt ratio (literal 0.05) then Ultra
         else if js_ge fps 50 \<and> js_lt ratio (literal 0.1) then High
         else if js_ge fps 40 \<and> js_lt ratio (literal 0.15) then Medium
         else if js_ge fps 30 then Low
         else Minimal)"

text \<open>The number of samples longer than 33 ms.\<close>

definition longFrames :: "jsnumber list \<Rightarrow> nat" where
  "longFrames xs = length (filter (\<lambda>x. js_gt x 33) xs)"

text \<open>An item without the timestamp that \<^verbatim>\<open>add\<close> writes into it.\<close>

definition unstamped :: "AnimationQueueItem \<Rightarrow> AnimationQueueItem" where
  "unstamped item = item\<lparr>timestamp := None\<rparr>"

text \<open>The guard at the head of \<^verbatim>\<open>add\<close>: the id is among the completed or the executing.\<close>

definition alreadyRun :: "world \<Rightarrow> AnimationQueueItem \<Rightarrow> bool" where
  "alreadyRun w item =
     (set_has (item_id item) (completedAnimations (aq w)) \<or> map_has (item_id item) (executing (aq w)))"


section \<open>Facts about rounding\<close>

lemma pow2_powr: "pow2 e = 2 powr (of_int e)"
proof (cases "0 \<le> e")
  case True
  then have "(2::real) powr (of_int e) = 2 powr (real (nat e))" by simp
  also have "\<dots> = 2 ^ nat e" by (simp add: powr_realpow)
  finally show ?thesis using True by (simp add: pow2_def)
next
  case False
  then have "(2::real) powr (of_int e) = 2 powr (- real (nat (- e)))" by simp
  also have "\<dots> = 1 / 2 powr (real (nat (- e)))" by (simp add: powr_minus divide_inverse)
  also have "\<dots> = 1 / 2 ^ nat (- e)" by (simp add: powr_realpow)
  finally show ?thesis using False by (simp add: pow2_def)
qed

lemma pow2_pos: "0 < pow2 e"
  by (simp add: pow2_def)

lemma binade_eq:
  assumes "pow2 e \<le> \<bar>x\<bar>" and "\<bar>x\<bar> < pow2 (e + 1)" and "- 1022 \<le> e"
  shows "binade x = e"
proof -
  have pos: "0 < \<bar>x\<bar>" using assms(1) pow2_pos [of e] by linarith
  have lo: "of_int e \<le> log 2 \<bar>x\<bar>"
    using assms(1) pos by (simp add: pow2_powr le_log_iff)
  have hi: "log 2 \<bar>x\<bar> < of_int e + 1"
    using assms(2) pos by (simp add: pow2_powr log_less_iff)
  have "\<lfloor>log 2 \<bar>x\<bar>\<rfloor> = e"
    using lo hi by (rule floor_unique)
  then show ?thesis using assms(3) by (simp add: binade_def)
qed

lemma round_half_even_near:
  assumes "\<bar>y - of_int n\<bar> < 1 / 2"
  shows "round_half_even y = n"
proof (cases "of_int n \<le> y")
  case True
  then have "\<lfloor>y\<rfloor> = n" using assms by (intro floor_unique) auto
  then show ?thesis using assms True by (simp add: round_half_even_def Let_def)
next
  case False
  then have f: "\<lfloor>y\<rfloor> = n - 1" using assms by (intro floor_unique) auto
  show ?thesis using assms False by (simp add: round_half_even_def Let_def f)
qed

lemma round_half_even_int: "round_half_even (of_int n) = n"
  by (rule round_half_even_near) simp

text \<open>The binade of a number and its rounded significand give its double.\<close>

lemma to_double_eq:
  assumes "pow2 e \<le> \<bar>x\<bar>" and "\<bar>x\<bar> < pow2 (e + 1)" and "- 1022 \<le> e"
    and "\<bar>x / pow2 (e - 52) - of_int n\<bar> < 1 / 2"
    and "n \<noteq> 0" and "\<bar>of_int n * pow2 (e - 52)\<bar> \<le> maxDouble"
  shows "to_double x = Num (of_int n * pow2 (e - 52))"
proof -
  have b: "binade x = e" using assms(1-3) by (rule binade_eq)
  have nz: "x \<noteq> 0" using assms(1) pow2_pos [of e] by auto
  have r: "round_half_even (x / pow2 (e - 52)) = n"
    using assms(4) by (rule round_half_even_near)
  show ?thesis
    using nz assms(5,6) by (simp add: to_double_def b r Let_def)
qed

text \<open>Integers below \<open>2 ^ 53\<close> are doubles.\<close>

lemma to_double_int:
  assumes "x \<in> \<int>" and "x \<noteq> 0" and "\<bar>x\<bar> < 2 ^ 53"
  shows "to_double x = Num x"
proof -
  from assms(1) obtain k :: int where k: "x = of_int k"
    by (auto elim: Ints_cases)
  have k0: "k \<noteq> 0" using assms(2) k by simp
  then have one: "1 \<le> \<bar>x\<bar>" using k by (simp flip: of_int_abs add: abs_if)
  define e where "e = \<lfloor>log 2 \<bar>x\<bar>\<rfloor>"
  have "0 \<le> log 2 \<bar>x\<bar>" using one by simp
  then have e0: "0 \<le> e" by (simp add: e_def)
  have "\<bar>x\<bar> < 2 powr 53"
    using assms(3) by (simp add: powr_numeral)
  then have "log 2 \<bar>x\<bar> < 53"
    using one by (subst log_less_iff) auto
  then have e52: "e \<le> 52" by (simp add: e_def floor_less_iff)
  have b: "binade x = e" using e0 by (simp add: binade_def e_def)
  have q: "pow2 (e - 52) = 1 / 2 ^ nat (52 - e)"
  proof (cases "e = 52")
    case True then show ?thesis by (simp add: pow2_def)
  next
    case False
    then have "e - 52 < 0" using e52 by simp
    then show ?thesis by (simp add: pow2_def)
  qed
  have quot: "x / pow2 (e - 52) = of_int (k * 2 ^ nat (52 - e))"
    by (simp add: q k)
  have r: "round_half_even (x / pow2 (e - 52)) = k * 2 ^ nat (52 - e)"
    unfolding quot by (rule round_half_even_int)
  have restore: "of_int k * 2 ^ nat (52 - e) * pow2 (e - 52) = x"
    by (simp add: q k)
  have small: "\<bar>x\<bar> \<le> maxDouble"
  proof -
    have "\<bar>x\<bar> \<le> (2::real) ^ 53" using assms(3) by simp
    also have "\<dots> \<le> maxDouble" by (simp add: maxDouble_def)
    finally show ?thesis .
  qed
  show ?thesis
    using assms(2) k0 small by (simp add: to_double_def b r restore Let_def)
qed

lemma to_double_numeral:
  "(numeral k :: real) < 2 ^ 53 \<Longrightarrow> to_double (numeral k) = Num (numeral k)"
  "(numeral k :: real) < 2 ^ 53 \<Longrightarrow> to_double (- numeral k) = Num (- numeral k)"
  "to_double 1 = Num 1"
  by (simp_all add: to_double_int)

text \<open>The doubles of the literals and quotients that the concrete runs below meet.\<close>

lemma literal_values:
  "literal (1667 / 100) = 4692187861766636 / 2 ^ 48"
  "literal (1 / 20) = 7205759403792794 / 2 ^ 57"
  "literal (1 / 10) = 7205759403792794 / 2 ^ 56"
  "literal (3 / 20) = 5404319552844595 / 2 ^ 55"
proof -
  have "to_double (1667 / 100) = Num (of_int 4692187861766636 * pow2 (4 - 52))"
    by (rule to_double_eq) (simp_all add: pow2_def maxDouble_def)
  then show "literal (1667 / 100) = 4692187861766636 / 2 ^ 48"
    by (simp add: literal_def pow2_def)
  have "to_double (1 / 20) = Num (of_int 7205759403792794 * pow2 (- 5 - 52))"
    by (rule to_double_eq) (simp_all add: pow2_def maxDouble_def)
  then show "literal (1 / 20) = 7205759403792794 / 2 ^ 57"
    by (simp add: literal_def pow2_def)
  have "to_double (1 / 10) = Num (of_int 7205759403792794 * pow2 (- 4 - 52))"
    by (rule to_double_eq) (simp_all add: pow2_def maxDouble_def)
  then show "literal (1 / 10) = 7205759403792794 / 2 ^ 56"
    by (simp add: literal_def pow2_def)
  have "to_double (3 / 20) = Num (of_int 5404319552844595 * pow2 (- 3 - 52))"
    by (rule to_double_eq) (simp_all add: pow2_def maxDouble_def)
  then show "literal (3 / 20) = 5404319552844595 / 2 ^ 55"
    by (simp add: literal_def pow2_def)
qed

lemma quotient_values:
  "to_double (1 / 60) = Num (4803839602528529 / 2 ^ 58)"
  "to_double (1 / 30) = Num (4803839602528529 / 2 ^ 57)"
  "to_double (1 / 15) = Num (4803839602528529 / 2 ^ 56)"
  "to_double (250 / 3) = Num (5864062014805333 / 2 ^ 46)"
proof -
  have "to_double (1 / 60) = Num (of_int 4803839602528529 * pow2 (- 6 - 52))"
    by (rule to_double_eq) (simp_all add: pow2_def maxDouble_def)
  then show "to_double (1 / 60) = Num (4803839602528529 / 2 ^ 58)"
    by (simp add: pow2_def)
  have "to_double (1 / 30) = Num (of_int 4803839602528529 * pow2 (- 5 - 52))"
    by (rule to_double_eq) (simp_all add: pow2_def maxDouble_def)
  then show "to_double (1 / 30) = Num (4803839602528529 / 2 ^ 57)"
    by (simp add: pow2_def)
  have "to_double (1 / 15) = Num (of_int 4803839602528529 * pow2 (- 4 - 52))"
    by (rule to_double_eq) (simp_all add: pow2_def maxDouble_def)
  then show "to_double (1 / 15) = Num (4803839602528529 / 2 ^ 56)"
    by (simp add: pow2_def)
  have "to_double (250 / 3) = Num (of_int 5864062014805333 * pow2 (6 - 52))"
    by (rule to_double_eq) (simp_all add: pow2_def maxDouble_def)
  then show "to_double (250 / 3) = Num (5864062014805333 / 2 ^ 46)"
    by (simp add: pow2_def)
qed

section \<open>Facts about the monitor\<close>

lemma adjustQuality_frameTimings: "frameTimings (adjustQuality m) = frameTimings m"
  by (simp add: adjustQuality_def Let_def)

lemma adjustQuality_notifications: "notifications (adjustQuality m) = notifications m"
  by (simp add: adjustQuality_def Let_def)

lemma adjustQuality_droppedFrames: "droppedFrames (adjustQuality m) = 0"
  by (simp add: adjustQuality_def Let_def)

lemma getAverageFrameTime_cong:
  "frameTimings m = frameTimings m' \<Longrightarrow> getAverageFrameTime m = getAverageFrameTime m'"
  by (simp add: getAverageFrameTime_def)

lemma frameTimings_measure_frame:
  "frameTimings (pm (measure_frame t w)) =
     (if lastFrameTime (pm w) = 0 then frameTimings (pm w)
      else if length (frameTimings (pm w)) \<ge> 60
           then tl (frameTimings (pm w) @ [js_sub (Num t) (Num (lastFrameTime (pm w)))])
           else frameTimings (pm w) @ [js_sub (Num t) (Num (lastFrameTime (pm w)))])"
  by (simp add: measure_frame_def requestAnimationFrame_def notifyCallbacks_def
      adjustQuality_frameTimings Let_def)

lemma measure_frames_snoc: "measure_frames (ts @ [t]) w = measure_frame t (measure_frames ts w)"
  by (simp add: measure_frames_def)

lemma rafLast_measure_frame: "rafLast (measure_frame t w) = Suc (rafLast w)"
  by (simp add: measure_frame_def requestAnimationFrame_def notifyCallbacks_def Let_def)

lemma perfMemory_measure_frame: "perfMemory (measure_frame t w) = perfMemory w"
  by (simp add: measure_frame_def requestAnimationFrame_def notifyCallbacks_def Let_def)

lemma rafLast_measure_frames: "rafLast (measure_frames ts w) = rafLast w + length ts"
  by (induction ts rule: rev_induct)
     (simp_all add: measure_frames_snoc rafLast_measure_frame, simp add: measure_frames_def)

lemma perfMemory_measure_frames: "perfMemory (measure_frames ts w) = perfMemory w"
  by (induction ts rule: rev_induct)
     (simp_all add: measure_frames_snoc perfMemory_measure_frame, simp add: measure_frames_def)

section \<open>Facts about the concrete states\<close>

lemma freshWorld_eq:
  "freshWorld =
     \<lparr>aq = \<lparr>queue = [], executing = [], maxConcurrent = 3, isRunning = False,
            frameBudget = literal 16.67, frameStartTime = 0, rafId = None,
            completedAnimations = []\<rparr>,
      pm = initialMonitor\<lparr>monitorRafId := Some 1\<rparr>, clock = real, ticks = 0, rafLast = 1,
      rafPending = [(1, MonitorMeasure)], console = [], calls = [], suspended = [],
      perfMemory = None\<rparr>"
  by (simp add: freshWorld_def new_AnimationQueue_def startMonitoring_def
      requestAnimationFrame_def Let_def)

lemma length_jankyPrefix: "length jankyPrefix = 60"
  by (simp add: jankyPrefix_def)

lemma janky_prefix:
  "pm (measure_frames jankyPrefix freshWorld) =
     \<lparr>frameTimings = [Num 40, Num 40, Num 40, Num 40, Num 10, Num 10, Num 10, Num 10, Num 10, Num 10, Num 10, Num 10, Num 10, Num 10, Num 10, Num 10, Num 10, Num 10, Num 10, Num 10, Num 10, Num 10, Num 10, Num 10, Num 10, Num 10, Num 10, Num 10, Num 10, Num 10, Num 10, Num 10, Num 10, Num 10, Num 10, Num 10, Num 10, Num 10, Num 10, Num 10, Num 10, Num 10, Num 10, Num 10, Num 10, Num 10, Num 10, Num 10, Num 10, Num 10, Num 10, Num 10, Num 10, Num 10, Num 10, Num 10, Num 10, Num 10, Num 10],
      lastFrameTime = 1710, droppedFrames = 4, qualityLevel = High,
      animationBudget = literal 16.67, activeAnimations = [], monitorRafId = Some 61,
      notifications = []\<rparr>"
  by (simp add: measure_frames_def jankyPrefix_def upt_conv_Cons freshWorld_eq
      requestAnimationFrame_def Let_def initialMonitor_def measure_frame_def js_sub_def
      to_double_numeral)

lemma janky_run:
  "pm (measure_frames jankyTimestamps freshWorld) =
     \<lparr>frameTimings = [Num 40, Num 40, Num 40, Num 40, Num 10, Num 10, Num 10, Num 10, Num 10, Num 10, Num 10, Num 10, Num 10, Num 10, Num 10, Num 10, Num 10, Num 10, Num 10, Num 10, Num 10, Num 10, Num 10, Num 10, Num 10, Num 10, Num 10, Num 10, Num 10, Num 10, Num 10, Num 10, Num 10, Num 10, Num 10, Num 10, Num 10, Num 10, Num 10, Num 10, Num 10, Num 10, Num 10, Num 10, Num 10, Num 10, Num 10, Num 10, Num 10, Num 10, Num 10, Num 10, Num 10, Num 10, Num 10, Num 10, Num 10, Num 10, Num 10, Num 10],
      lastFrameTime = 1720, droppedFrames = 0, qualityLevel = High, animationBudget = 20,
      activeAnimations = [], monitorRafId = Some 62,
      notifications =
        [\<lparr>m_fps = Num 83, m_frameTime = Num 12, m_droppedFrames = 0, m_memoryUsage = Num 0,
          m_animationCount = 0\<rparr>]\<rparr>"
proof -
  let ?w = "measure_frames jankyPrefix freshWorld"
  have raf: "rafLast ?w = 61"
    by (simp add: rafLast_measure_frames length_jankyPrefix freshWorld_eq)
  have mem: "perfMemory ?w = None"
    by (simp add: perfMemory_measure_frames freshWorld_eq)
  show ?thesis
    unfolding jankyTimestamps_def measure_frames_snoc
    by (simp add: measure_frame_def janky_prefix raf mem requestAnimationFrame_def
        notifyCallbacks_def adjustQuality_def getAverageFrameTime_def getMetrics_def
        getCurrentFPS_def getMemoryUsage_def js_sub_def js_div_def is_zero_def
        is_infinite_def Let_def to_double_numeral quotient_values literal_values)
qed

lemma smoothMonitor_average: "getAverageFrameTime smoothMonitor = Num 10"
  by (simp add: getAverageFrameTime_def smoothMonitor_def upt_conv_Cons js_div_def
      is_zero_def is_infinite_def to_double_numeral)

lemma edge_quotients:
  "to_double (100 / 3) = Num (4691249611844267 / 2 ^ 47)"
  "to_double (140737488355328000 / 4691249611844267) = Num (8444249301319679 / 2 ^ 48)"
proof -
  have "to_double (100 / 3) = Num (of_int 4691249611844267 * pow2 (5 - 52))"
    by (rule to_double_eq) (simp_all add: pow2_def maxDouble_def)
  then show "to_double (100 / 3) = Num (4691249611844267 / 2 ^ 47)"
    by (simp add: pow2_def)
  have "to_double (140737488355328000 / 4691249611844267)
          = Num (of_int 8444249301319679 * pow2 (4 - 52))"
    by (rule to_double_eq) (simp_all add: pow2_def maxDouble_def)
  then show "to_double (140737488355328000 / 4691249611844267)
               = Num (8444249301319679 / 2 ^ 48)"
    by (simp add: pow2_def)
qed

text \<open>Rounding decides the tier at the edge: the FPS of this window is below 30.\<close>

lemma edge_window_minimal: "qualityLevel (adjustQuality edgeMonitor) = Minimal"
  by (simp add: adjustQuality_def getAverageFrameTime_def edgeMonitor_def upt_conv_Cons
      js_div_def is_zero_def is_infinite_def to_double_numeral edge_quotients
      initialMonitor_def Let_def)



section \<open>The quality level of a window\<close>

lemma small_ratio:
  assumes "d < 3"
  shows "js_lt (js_div (Num (real d)) (Num 60)) (literal 0.05)
       \<and> js_lt (js_div (Num (real d)) (Num 60)) (literal 0.1)
       \<and> js_lt (js_div (Num (real d)) (Num 60)) (literal 0.15)"
proof -
  from assms have "d = 0 \<or> d = 1 \<or> d = 2" by auto
  then show ?thesis
    by (auto simp: js_div_def is_zero_def is_infinite_def quotient_values literal_values)
qed

lemma amended_small: "d < 3 \<Longrightarrow> amended_qualityLevel fps d = spec_qualityLevel fps"
  using small_ratio [of d]
  by (simp add: amended_qualityLevel_def spec_qualityLevel_def Let_def)

lemma adjustQuality_amended:
  assumes "length (frameTimings m) = 60"
  shows "qualityLevel (adjustQuality m) =
           amended_qualityLevel (js_div (Num 1000) (getAverageFrameTime m)) (droppedFrames m)"
  using assms by (simp add: adjustQuality_def amended_qualityLevel_def Let_def)

lemma longFrames_snoc:
  "longFrames (xs @ [x]) = longFrames xs + (if js_gt x 33 then 1 else 0)"
  by (simp add: longFrames_def)

lemma measure_frame_cold:
  assumes "lastFrameTime (pm w) = 0"
  shows "frameTimings (pm (measure_frame t w)) = frameTimings (pm w)
       \<and> droppedFrames (pm (measure_frame t w)) = droppedFrames (pm w)"
  using assms by (simp add: measure_frame_def requestAnimationFrame_def Let_def)

lemma measure_frame_filling:
  assumes "lastFrameTime (pm w) \<noteq> 0" and "length (frameTimings (pm w)) < 59"
  shows "frameTimings (pm (measure_frame t w))
           = frameTimings (pm w) @ [js_sub (Num t) (Num (lastFrameTime (pm w)))]
       \<and> droppedFrames (pm (measure_frame t w))
           = droppedFrames (pm w)
             + (if js_gt (js_sub (Num t) (Num (lastFrameTime (pm w)))) 33 then 1 else 0)"
  using assms by (simp add: measure_frame_def requestAnimationFrame_def Let_def)

text \<open>
  The frame that fills the buffer, and every frame at a full buffer, adjusts the quality
  with the counter as it stands after this frame, and resets the counter.
\<close>

lemma measure_frame_adjusting:
  assumes "lastFrameTime (pm w) \<noteq> 0"
    and "length (frameTimings (pm w)) = 59 \<or> length (frameTimings (pm w)) = 60"
  shows "droppedFrames (pm (measure_frame t w)) = 0
       \<and> length (frameTimings (pm (measure_frame t w))) = 60
       \<and> qualityLevel (pm (measure_frame t w))
           = amended_qualityLevel
               (js_div (Num 1000) (getAverageFrameTime (pm (measure_frame t w))))
               (droppedFrames (pm w)
                + (if js_gt (js_sub (Num t) (Num (lastFrameTime (pm w)))) 33 then 1 else 0))"
proof -
  let ?ft = "js_sub (Num t) (Num (lastFrameTime (pm w)))"
  let ?ts = "if length (frameTimings (pm w)) = 60
             then tl (frameTimings (pm w) @ [?ft]) else frameTimings (pm w) @ [?ft]"
  let ?d = "droppedFrames (pm w) + (if js_gt ?ft 33 then 1 else 0)"
  let ?m3 = "(pm w)\<lparr>frameTimings := ?ts, droppedFrames := ?d\<rparr>"
  have len: "length ?ts = 60"
    using assms(2) by auto
  have step: "pm (measure_frame t w) =
      (adjustQuality ?m3)
        \<lparr>notifications := notifications (adjustQuality ?m3)
           @ [getMetrics (w\<lparr>pm := adjustQuality ?m3\<rparr>)],
         lastFrameTime := t, monitorRafId := Some (Suc (rafLast w))\<rparr>"
    using assms len
    by (auto simp: measure_frame_def requestAnimationFrame_def notifyCallbacks_def Let_def)
  have ft: "frameTimings (pm (measure_frame t w)) = ?ts"
    by (simp add: step adjustQuality_frameTimings)
  have avg: "getAverageFrameTime (pm (measure_frame t w)) = getAverageFrameTime ?m3"
    by (rule getAverageFrameTime_cong) (simp add: ft)
  have "qualityLevel (pm (measure_frame t w)) = qualityLevel (adjustQuality ?m3)"
    by (simp add: step)
  also have "\<dots> = amended_qualityLevel (js_div (Num 1000) (getAverageFrameTime ?m3)) ?d"
    using len by (simp add: adjustQuality_amended)
  finally have "qualityLevel (pm (measure_frame t w))
      = amended_qualityLevel (js_div (Num 1000) (getAverageFrameTime (pm (measure_frame t w)))) ?d"
    by (simp add: avg)
  moreover have "droppedFrames (pm (measure_frame t w)) = 0"
    by (simp add: step adjustQuality_droppedFrames)
  ultimately show ?thesis
    using len by (simp add: ft)
qed

text \<open>
  While the buffer fills, the counter is the number of long samples in it; at a full
  buffer the counter is 0.
\<close>

lemma counter_invariant:
  assumes "frameTimings (pm w0) = []" and "droppedFrames (pm w0) = 0"
  shows "(length (frameTimings (pm (measure_frames ts w0))) < 60 \<longrightarrow>
            droppedFrames (pm (measure_frames ts w0))
              = longFrames (frameTimings (pm (measure_frames ts w0))))
       \<and> (length (frameTimings (pm (measure_frames ts w0))) = 60 \<longrightarrow>
            droppedFrames (pm (measure_frames ts w0)) = 0)
       \<and> length (frameTimings (pm (measure_frames ts w0))) \<le> 60"
proof (induction ts rule: rev_induct)
  case Nil
  then show ?case
    using assms by (simp add: measure_frames_def longFrames_def)
next
  case (snoc t ts)
  let ?w = "measure_frames ts w0"
  show ?case
  proof (cases "lastFrameTime (pm ?w) = 0")
    case True
    then show ?thesis
      using snoc measure_frame_cold [of ?w t] by (simp add: measure_frames_snoc)
  next
    case warm: False
    show ?thesis
    proof (cases "length (frameTimings (pm ?w)) < 59")
      case True
      then show ?thesis
        using snoc warm measure_frame_filling [of ?w t]
        by (simp add: measure_frames_snoc longFrames_snoc)
    next
      case False
      then have "length (frameTimings (pm ?w)) = 59 \<or> length (frameTimings (pm ?w)) = 60"
        using snoc by auto
      then show ?thesis
        using warm measure_frame_adjusting [of ?w t] by (simp add: measure_frames_snoc)
    qed
  qed
qed

text \<open>
  C1, as amended. \<^verbatim>\<open>adjustQuality\<close>, which runs at every frame that leaves the buffer with
  60 samples, sets the quality level to exactly one of the five levels, decided by the
  window's average FPS (1000 over the average frame time, in double arithmetic) together
  with the monitor's counter of dropped frames over the 60 samples: ultra at 55 FPS or more
  with a ratio below 0.05, else high at 50 FPS or more with a ratio below 0.1, else medium
  at 40 FPS or more with a ratio below 0.15, else low at 30 FPS or more, else minimal. The
  counter holds the frames longer than 33 ms since the adjustment before: in a run from the
  initial state, at the frame that completes the first window it is the number of that
  window's samples longer than 33 ms, and at every later frame the buffer was full and the
  counter 0 before, so that it is at most 1 and the level is the FPS tier alone, with the
  thresholds 55, 50, 40 and 30.
\<close>

theorem quality_of_window:
  "(length (frameTimings m) = 60 \<longrightarrow>
      qualityLevel (adjustQuality m)
        = amended_qualityLevel (js_div (Num 1000) (getAverageFrameTime m)) (droppedFrames m)
      \<and> (droppedFrames m < 3 \<longrightarrow>
           qualityLevel (adjustQuality m)
             = spec_qualityLevel (js_div (Num 1000) (getAverageFrameTime m))))
   \<and> (frameTimings (pm w0) = [] \<and> droppedFrames (pm w0) = 0 \<longrightarrow>
        (let w = measure_frames ts w0;
             w' = measure_frame t w;
             fps = js_div (Num 1000) (getAverageFrameTime (pm w'))
         in (lastFrameTime (pm w) \<noteq> 0 \<and> length (frameTimings (pm w)) = 59 \<longrightarrow>
               qualityLevel (pm w') = amended_qualityLevel fps (longFrames (frameTimings (pm w'))))
          \<and> (lastFrameTime (pm w) \<noteq> 0 \<and> length (frameTimings (pm w)) = 60 \<longrightarrow>
               droppedFrames (pm w) = 0
               \<and> qualityLevel (pm w') = spec_qualityLevel fps)))"
proof -
  have one: "length (frameTimings m) = 60 \<longrightarrow>
      qualityLevel (adjustQuality m)
        = amended_qualityLevel (js_div (Num 1000) (getAverageFrameTime m)) (droppedFrames m)
      \<and> (droppedFrames m < 3 \<longrightarrow>
           qualityLevel (adjustQuality m)
             = spec_qualityLevel (js_div (Num 1000) (getAverageFrameTime m)))"
    by (simp add: adjustQuality_amended amended_small)
  have run: "qualityLevel (pm (measure_frame t (measure_frames ts w0)))
               = amended_qualityLevel
                   (js_div (Num 1000)
                      (getAverageFrameTime (pm (measure_frame t (measure_frames ts w0)))))
                   (longFrames (frameTimings (pm (measure_frame t (measure_frames ts w0)))))"
    if init: "frameTimings (pm w0) = []" "droppedFrames (pm w0) = 0"
      and warm: "lastFrameTime (pm (measure_frames ts w0)) \<noteq> 0"
      and len: "length (frameTimings (pm (measure_frames ts w0))) = 59"
  proof -
    let ?w = "measure_frames ts w0"
    let ?ft = "js_sub (Num t) (Num (lastFrameTime (pm ?w)))"
    have d: "droppedFrames (pm ?w) = longFrames (frameTimings (pm ?w))"
      using counter_invariant [OF init, of ts] len by simp
    have ft: "frameTimings (pm (measure_frame t ?w)) = frameTimings (pm ?w) @ [?ft]"
      using warm len by (simp add: frameTimings_measure_frame)
    show ?thesis
      using measure_frame_adjusting [of ?w t] warm len
      by (simp add: d ft longFrames_snoc)
  qed
  have steady: "droppedFrames (pm (measure_frames ts w0)) = 0
       \<and> qualityLevel (pm (measure_frame t (measure_frames ts w0)))
               = spec_qualityLevel
                   (js_div (Num 1000)
                      (getAverageFrameTime (pm (measure_frame t (measure_frames ts w0)))))"
    if init: "frameTimings (pm w0) = []" "droppedFrames (pm w0) = 0"
      and warm: "lastFrameTime (pm (measure_frames ts w0)) \<noteq> 0"
      and len: "length (frameTimings (pm (measure_frames ts w0))) = 60"
  proof -
    let ?w = "measure_frames ts w0"
    have d: "droppedFrames (pm ?w) = 0"
      using counter_invariant [OF init, of ts] len by simp
    show ?thesis
      using measure_frame_adjusting [of ?w t] warm len
      by (simp add: d amended_small)
  qed
  show ?thesis
    unfolding Let_def using one run steady by blast
qed

text \<open>
  The theorem at three places. A window of 60 frames of 10 ms with nothing dropped: ultra.
  The first window of \<open>jankyTimestamps\<close>, completed by the frame at 1720 ms: four long
  samples, 83 FPS, high. And the frame after it, at 1760 ms: the window again holds four
  long samples and averages 12 ms, but the counter stands at 1 and the level is ultra.
\<close>

theorem quality_of_window_witness:
  "length (frameTimings smoothMonitor) = 60
   \<and> droppedFrames smoothMonitor < 3
   \<and> qualityLevel (adjustQuality smoothMonitor) = Ultra
   \<and> frameTimings (pm freshWorld) = []
   \<and> droppedFrames (pm freshWorld) = 0
   \<and> lastFrameTime (pm (measure_frames jankyPrefix freshWorld)) \<noteq> 0
   \<and> length (frameTimings (pm (measure_frames jankyPrefix freshWorld))) = 59
   \<and> longFrames (frameTimings (pm (measure_frame 1720 (measure_frames jankyPrefix freshWorld)))) = 4
   \<and> qualityLevel (pm (measure_frame 1720 (measure_frames jankyPrefix freshWorld))) = High
   \<and> lastFrameTime (pm (measure_frames jankyTimestamps freshWorld)) \<noteq> 0
   \<and> length (frameTimings (pm (measure_frames jankyTimestamps freshWorld))) = 60
   \<and> longFrames (frameTimings (pm (measure_frame 1760 (measure_frames jankyTimestamps freshWorld)))) = 4
   \<and> qualityLevel (pm (measure_frame 1760 (measure_frames jankyTimestamps freshWorld))) = Ultra"
proof -
  let ?p = "measure_frames jankyPrefix freshWorld"
  let ?w = "measure_frames jankyTimestamps freshWorld"
  have split: "measure_frame 1720 ?p = ?w"
    by (simp add: jankyTimestamps_def measure_frames_snoc)
  have len: "length (frameTimings smoothMonitor) = 60"
    by (simp add: smoothMonitor_def)
  have few: "droppedFrames smoothMonitor < 3"
    by (simp add: smoothMonitor_def initialMonitor_def)
  have empty: "frameTimings (pm freshWorld) = []" and zero: "droppedFrames (pm freshWorld) = 0"
    by (simp_all add: freshWorld_eq initialMonitor_def)
  have warm59: "lastFrameTime (pm ?p) \<noteq> 0" and len59: "length (frameTimings (pm ?p)) = 59"
    by (simp_all add: janky_prefix)
  have warm60: "lastFrameTime (pm ?w) \<noteq> 0" and len60: "length (frameTimings (pm ?w)) = 60"
    by (simp_all add: janky_run)
  have "qualityLevel (adjustQuality smoothMonitor)
          = spec_qualityLevel (js_div (Num 1000) (getAverageFrameTime smoothMonitor))"
    using quality_of_window [of smoothMonitor freshWorld "[]" 0] len few by blast
  then have smooth: "qualityLevel (adjustQuality smoothMonitor) = Ultra"
    by (simp add: smoothMonitor_average spec_qualityLevel_def js_div_def is_zero_def
        is_infinite_def to_double_numeral)
  have long1: "longFrames (frameTimings (pm (measure_frame 1720 ?p))) = 4"
    by (simp add: split janky_run longFrames_def)
  have "qualityLevel (pm (measure_frame 1720 ?p))
          = amended_qualityLevel
              (js_div (Num 1000) (getAverageFrameTime (pm (measure_frame 1720 ?p))))
              (longFrames (frameTimings (pm (measure_frame 1720 ?p))))"
    using quality_of_window [of smoothMonitor freshWorld jankyPrefix 1720]
      empty zero warm59 len59
    unfolding Let_def by blast
  then have first: "qualityLevel (pm (measure_frame 1720 ?p)) = High"
    unfolding long1
    by (simp add: split janky_run getAverageFrameTime_def amended_qualityLevel_def js_div_def
        is_zero_def is_infinite_def to_double_numeral quotient_values literal_values)
  have window: "frameTimings (pm (measure_frame 1760 ?w))
                  = tl (frameTimings (pm ?w)) @ [Num 40]"
    by (simp add: frameTimings_measure_frame janky_run js_sub_def to_double_numeral)
  have long2: "longFrames (frameTimings (pm (measure_frame 1760 ?w))) = 4"
    by (simp add: window janky_run longFrames_def)
  have avg: "getAverageFrameTime (pm (measure_frame 1760 ?w)) = Num 12"
    by (simp add: getAverageFrameTime_def window janky_run js_div_def is_zero_def
        is_infinite_def to_double_numeral)
  have "qualityLevel (pm (measure_frame 1760 ?w))
          = spec_qualityLevel (js_div (Num 1000) (getAverageFrameTime (pm (measure_frame 1760 ?w))))"
    using quality_of_window [of smoothMonitor freshWorld jankyTimestamps 1760]
      empty zero warm60 len60
    unfolding Let_def by blast
  then have later: "qualityLevel (pm (measure_frame 1760 ?w)) = Ultra"
    by (simp add: avg spec_qualityLevel_def js_div_def is_zero_def is_infinite_def
        quotient_values)
  show ?thesis
    using len few smooth empty zero warm59 len59 long1 first warm60 len60 long2 later
    by simp
qed

text \<open>
  C1 as stated fails. When the frame at 1720 ms completes the first window of
  \<open>jankyTimestamps\<close>, the average frame time is 12 ms, an FPS above 83 and so in the claim's
  ultra tier, but four of the 60 frames were dropped and the level the monitor sets is high.
\<close>

theorem quality_not_from_fps_alone:
  "qualityLevel (pm (measure_frames jankyTimestamps freshWorld))
     \<noteq> spec_qualityLevel
         (js_div (Num 1000) (getAverageFrameTime (pm (measure_frames jankyTimestamps freshWorld))))"
  by (simp add: janky_run getAverageFrameTime_def spec_qualityLevel_def js_div_def is_zero_def
      is_infinite_def to_double_numeral quotient_values)

section \<open>Skipping by priority\<close>

lemma skip_monotone:
  assumes "shouldSkipAnimation m p" and "p < q"
  shows "shouldSkipAnimation m q"
  using assms
  by (cases "qualityLevel m")
     (auto simp: shouldSkipAnimation_def CRITICAL_def HIGH_def MEDIUM_def split: if_splits)

lemma hasFrameBudget_snd: "snd (hasFrameBudget w) = w\<lparr>ticks := Suc (ticks w)\<rparr>"
  by (simp add: hasFrameBudget_def performance_now_def Let_def)

lemma hasFrameBudget_fst:
  "fst (hasFrameBudget w) =
     js_lt (js_sub (Num (clock w (ticks w))) (Num (frameStartTime (aq w))))
       (case qualityLevel (pm w) of Minimal \<Rightarrow> 8 | Low \<Rightarrow> 12 | Medium \<Rightarrow> 16
        | _ \<Rightarrow> frameBudget (aq w))"
  by (cases "qualityLevel (pm w)") (simp_all add: hasFrameBudget_def performance_now_def Let_def)

lemma processLoop_skip:
  assumes "queue (aq w) = item # rest"
    and "real (length (executing (aq w))) < maxConcurrent (aq w)"
    and "fst (hasFrameBudget w)"
    and "shouldSkipAnimation (pm w) (priority item)"
  shows "processLoop w =
           processLoop (w\<lparr>ticks := Suc (ticks w), aq := (aq w)\<lparr>queue := rest\<rparr>,
                          pm := unregisterAnimation (item_id item) (pm w)\<rparr>)"
proof -
  have hb: "hasFrameBudget w = (True, w\<lparr>ticks := Suc (ticks w)\<rparr>)"
    using assms(3) hasFrameBudget_snd [of w] by (cases "hasFrameBudget w") simp
  show ?thesis
    by (subst processLoop.simps) (simp add: assms hb)
qed

lemma processLoop_empty: "queue (aq w) = [] \<Longrightarrow> processLoop w = w"
  by (subst processLoop.simps) simp

lemma strainedWorld_eq:
  "strainedWorld =
     freshWorld
       \<lparr>aq := (aq freshWorld)\<lparr>queue := [decorItem\<lparr>timestamp := Some 0\<rparr>]\<rparr>,
        pm := (pm freshWorld)\<lparr>qualityLevel := Minimal, animationBudget := 50,
                                activeAnimations := [''sparkle'']\<rparr>,
        ticks := 1\<rparr>"
  by (simp add: strainedWorld_def add_def freshWorld_eq initialMonitor_def decorItem_def
      set_has_def map_has_def performance_now_def registerAnimation_def set_add_def Let_def)

text \<open>
  C2. Skipping is monotone in the priority: in one state of the monitor, an animation of
  priority \<open>p\<close> being skipped means that every animation of a numerically greater priority
  \<open>q\<close> is skipped as well. And when the queue's loop takes an item off the queue (the queue
  is not empty, fewer animations are executing than allowed, the frame has budget left) for
  whose priority \<^verbatim>\<open>shouldSkipAnimation\<close> is true, the loop goes on from the state in which
  the item is gone from the queue and unregistered from the monitor and nothing else has
  happened but the reading of the clock: no callback called, nothing executing or completed.
\<close>

theorem skip_by_priority:
  "(shouldSkipAnimation m p \<and> p < q \<longrightarrow> shouldSkipAnimation m q)
   \<and> (queue (aq w) = item # rest
        \<and> real (length (executing (aq w))) < maxConcurrent (aq w)
        \<and> fst (hasFrameBudget w)
        \<and> shouldSkipAnimation (pm w) (priority item)
      \<longrightarrow> processLoop w =
            processLoop (w\<lparr>ticks := Suc (ticks w), aq := (aq w)\<lparr>queue := rest\<rparr>,
                           pm := unregisterAnimation (item_id item) (pm w)\<rparr>))"
  using skip_monotone [of m p q] processLoop_skip [of w item rest] by blast

text \<open>
  The theorem at the minimal quality level with one optional animation queued: the frame's
  loop drops it, calls nothing and leaves no animation registered.
\<close>

theorem skip_by_priority_witness:
  "shouldSkipAnimation (pm strainedWorld) MEDIUM
   \<and> MEDIUM < LOW
   \<and> shouldSkipAnimation (pm strainedWorld) LOW
   \<and> queue (aq strainedWorld) = [decorItem\<lparr>timestamp := Some 0\<rparr>]
   \<and> real (length (executing (aq strainedWorld))) < maxConcurrent (aq strainedWorld)
   \<and> fst (hasFrameBudget strainedWorld)
   \<and> queue (aq (processLoop strainedWorld)) = []
   \<and> calls (processLoop strainedWorld) = []
   \<and> executing (aq (processLoop strainedWorld)) = []
   \<and> activeAnimations (pm (processLoop strainedWorld)) = []"
proof -
  let ?item = "decorItem\<lparr>timestamp := Some 0\<rparr>"
  let ?next = "strainedWorld\<lparr>ticks := Suc (ticks strainedWorld),
                 aq := (aq strainedWorld)\<lparr>queue := []\<rparr>,
                 pm := unregisterAnimation (item_id ?item) (pm strainedWorld)\<rparr>"
  have medium: "shouldSkipAnimation (pm strainedWorld) MEDIUM"
    by (simp add: strainedWorld_eq shouldSkipAnimation_def MEDIUM_def freshWorld_eq)
  have less: "MEDIUM < LOW"
    by (simp add: MEDIUM_def LOW_def)
  have q: "queue (aq strainedWorld) = [?item]"
    by (simp add: strainedWorld_eq)
  have room: "real (length (executing (aq strainedWorld))) < maxConcurrent (aq strainedWorld)"
    by (simp add: strainedWorld_eq freshWorld_eq)
  have budget: "fst (hasFrameBudget strainedWorld)"
    by (simp add: hasFrameBudget_fst strainedWorld_eq freshWorld_eq js_sub_def)
  have low: "shouldSkipAnimation (pm strainedWorld) LOW"
    using skip_by_priority [of "pm strainedWorld" MEDIUM LOW] medium less by blast
  then have skip: "shouldSkipAnimation (pm strainedWorld) (priority ?item)"
    by (simp add: decorItem_def)
  have "processLoop strainedWorld = processLoop ?next"
    using skip_by_priority [of "pm strainedWorld" MEDIUM LOW strainedWorld ?item "[]"]
      q room budget skip by blast
  also have "\<dots> = ?next"
    by (rule processLoop_empty) simp
  finally have "processLoop strainedWorld = ?next" .
  then show ?thesis
    using medium less low q room budget
    by (simp add: strainedWorld_eq freshWorld_eq unregisterAnimation_def set_delete_def
        decorItem_def initialMonitor_def)
qed

section \<open>The frame budget\<close>











section \<open>The order of the queue\<close>

lemma findIndex_ge: "- 1 \<le> findIndex P xs"
  by (induction xs) (simp_all add: Let_def)

lemma findIndex_none: "(findIndex P xs = - 1) = (\<forall>x\<in>set xs. \<not> P x)"
proof (induction xs)
  case Nil
  then show ?case by simp
next
  case (Cons a xs)
  then show ?case
    using findIndex_ge [of P xs] by (auto simp: Let_def)
qed

lemma findIndex_takeWhile:
  "findIndex P xs \<noteq> - 1 \<Longrightarrow> nat (findIndex P xs) = length (takeWhile (\<lambda>x. \<not> P x) xs)"
proof (induction xs)
  case Nil
  then show ?case by simp
next
  case (Cons a xs)
  then show ?case
    using findIndex_ge [of P xs]
    by (auto simp: Let_def nat_add_distrib split: if_splits)
qed

text \<open>Where \<^verbatim>\<open>add\<close> puts the item: behind the longest prefix that does not satisfy \<open>P\<close>.\<close>

lemma insert_position:
  "(if findIndex P xs = - 1 then xs @ [x] else splice_insert (findIndex P xs) x xs)
     = takeWhile (\<lambda>y. \<not> P y) xs @ x # dropWhile (\<lambda>y. \<not> P y) xs"
proof (cases "findIndex P xs = - 1")
  case True
  then have all: "\<forall>y\<in>set xs. \<not> P y"
    by (simp add: findIndex_none)
  have tw: "takeWhile (\<lambda>y. \<not> P y) xs = xs"
    using all by (simp add: takeWhile_eq_all_conv)
  have dw: "dropWhile (\<lambda>y. \<not> P y) xs = []"
    using all by simp
  show ?thesis
    by (simp add: True tw dw)
next
  case False
  have "take (length (takeWhile (\<lambda>y. \<not> P y) xs)) xs = takeWhile (\<lambda>y. \<not> P y) xs"
    by (rule takeWhile_eq_take [symmetric])
  moreover have "drop (length (takeWhile (\<lambda>y. \<not> P y) xs)) xs = dropWhile (\<lambda>y. \<not> P y) xs"
    by (rule dropWhile_eq_drop [symmetric])
  ultimately show ?thesis
    using False by (simp add: splice_insert_def findIndex_takeWhile)
qed

lemma sorted_insert_position:
  fixes f :: "'a \<Rightarrow> real"
  assumes "sorted (map f xs)"
  shows "sorted (map f (takeWhile (\<lambda>y. \<not> f y > f x) xs @ x # dropWhile (\<lambda>y. \<not> f y > f x) xs))"
  using assms
proof (induction xs)
  case Nil
  then show ?case by simp
next
  case (Cons a xs)
  show ?case
  proof (cases "f a > f x")
    case True
    then show ?thesis using Cons.prems by auto
  next
    case False
    have "\<forall>y\<in>set (takeWhile (\<lambda>y. \<not> f y > f x) xs @ x # dropWhile (\<lambda>y. \<not> f y > f x) xs). f a \<le> f y"
      using False Cons.prems by (auto dest: set_takeWhileD set_dropWhileD)
    then show ?thesis using False Cons by auto
  qed
qed

lemma filter_insert_position:
  fixes f :: "'a \<Rightarrow> real"
  assumes "sorted (map f xs)"
  shows "filter (\<lambda>y. f y = p) (takeWhile (\<lambda>y. \<not> f y > f x) xs @ x # dropWhile (\<lambda>y. \<not> f y > f x) xs)
           = filter (\<lambda>y. f y = p) xs @ (if f x = p then [x] else [])"
  using assms
proof (induction xs)
  case Nil
  then show ?case by simp
next
  case (Cons a xs)
  show ?case
  proof (cases "f a > f x")
    case True
    then have "\<forall>y\<in>set (a # xs). f x < f y"
      using Cons.prems by auto
    then have "f x = p \<Longrightarrow> filter (\<lambda>y. f y = p) (a # xs) = []"
      by (auto simp: filter_empty_conv)
    then show ?thesis using True by auto
  next
    case False
    then show ?thesis using Cons by auto
  qed
qed

lemma processQueue_aq:
  "queue (aq (processQueue w)) = queue (aq w)"
  "completedAnimations (aq (processQueue w)) = completedAnimations (aq w)"
  "executing (aq (processQueue w)) = executing (aq w)"
  by (simp_all add: processQueue_def requestAnimationFrame_def Let_def)

lemma add_alreadyRun: "alreadyRun w item \<Longrightarrow> add item w = w"
  by (simp add: add_def alreadyRun_def)

lemma add_keeps_sets:
  "completedAnimations (aq (add item w)) = completedAnimations (aq w)"
  "executing (aq (add item w)) = executing (aq w)"
  by (simp_all add: add_def performance_now_def Let_def processQueue_aq)

lemma alreadyRun_add: "alreadyRun (add item w) i = alreadyRun w i"
  by (simp add: alreadyRun_def add_keeps_sets)

lemma add_queue:
  assumes "\<not> alreadyRun w item"
  shows "queue (aq (add item w)) =
           takeWhile (\<lambda>q. \<not> priority q > priority item) (queue (aq w))
           @ item\<lparr>timestamp := Some (clock w (ticks w))\<rparr>
           # dropWhile (\<lambda>q. \<not> priority q > priority item) (queue (aq w))"
proof -
  let ?P = "\<lambda>q. priority q > priority item"
  let ?x = "item\<lparr>timestamp := Some (clock w (ticks w))\<rparr>"
  have "queue (aq (add item w)) =
          (if findIndex ?P (queue (aq w)) = - 1 then queue (aq w) @ [?x]
           else splice_insert (findIndex ?P (queue (aq w))) ?x (queue (aq w)))"
    using assms
    by (simp add: add_def alreadyRun_def performance_now_def Let_def processQueue_aq)
  then show ?thesis
    by (simp only: insert_position)
qed

lemma add_sorted:
  assumes "sorted (map priority (queue (aq w)))"
  shows "sorted (map priority (queue (aq (add item w))))"
proof (cases "alreadyRun w item")
  case True
  then show ?thesis using assms by (simp add: add_alreadyRun)
next
  case False
  let ?x = "item\<lparr>timestamp := Some (clock w (ticks w))\<rparr>"
  have "priority ?x = priority item" by simp
  then show ?thesis
    using sorted_insert_position [OF assms, of ?x] by (simp add: add_queue [OF False])
qed

lemma add_fifo:
  assumes "sorted (map priority (queue (aq w)))"
  shows "map unstamped (filter (\<lambda>i. priority i = p) (queue (aq (add item w))))
           = map unstamped (filter (\<lambda>i. priority i = p) (queue (aq w)))
             @ map unstamped (filter (\<lambda>i. priority i = p) (filter (\<lambda>i. \<not> alreadyRun w i) [item]))"
proof (cases "alreadyRun w item")
  case True
  then show ?thesis by (simp add: add_alreadyRun)
next
  case False
  let ?x = "item\<lparr>timestamp := Some (clock w (ticks w))\<rparr>"
  have px: "priority ?x = priority item" by simp
  have "filter (\<lambda>i. priority i = p) (queue (aq (add item w)))
          = filter (\<lambda>i. priority i = p) (queue (aq w)) @ (if priority item = p then [?x] else [])"
    using filter_insert_position [OF assms, of p ?x] by (simp add: add_queue [OF False])
  then show ?thesis
    using False by (simp add: unstamped_def)
qed

lemma addBatch_order:
  assumes "sorted (map priority (queue (aq w)))"
  shows "sorted (map priority (queue (aq (addBatch items w))))
       \<and> (\<forall>p. map unstamped (filter (\<lambda>i. priority i = p) (queue (aq (addBatch items w))))
               = map unstamped (filter (\<lambda>i. priority i = p) (queue (aq w)))
                 @ map unstamped (filter (\<lambda>i. priority i = p)
                                    (filter (\<lambda>i. \<not> alreadyRun w i) items)))"
  using assms
proof (induction items arbitrary: w)
  case Nil
  then show ?case by (simp add: addBatch_def)
next
  case (Cons item items)
  have step: "addBatch (item # items) w = addBatch items (add item w)"
    by (simp add: addBatch_def)
  have s: "sorted (map priority (queue (aq (add item w))))"
    using Cons.prems by (rule add_sorted)
  have same: "(\<lambda>i. \<not> alreadyRun (add item w) i) = (\<lambda>i. \<not> alreadyRun w i)"
    by (simp add: alreadyRun_add)
  show ?case
    unfolding step
    using Cons.IH [OF s] add_fifo [OF Cons.prems, of _ item]
    by (simp add: same)
qed

text \<open>
  C4. From a queue sorted by priority (the constructor's empty queue is), after any sequence
  of \<^verbatim>\<open>add\<close> calls the queue is sorted in non-decreasing numeric priority, and the items
  of any one priority stand in it in the order of their insertion: those that were queued
  before, then those of the added items that \<^verbatim>\<open>add\<close> has taken (all but the ones whose id
  was completed or executing), in the order of the calls. One \<^verbatim>\<open>add\<close> puts the item, with
  its timestamp, right before the first queued item of a strictly greater priority, or at
  the end when there is none.
\<close>

theorem add_keeps_priority_order:
  assumes "sorted (map priority (queue (aq w)))"
  shows "sorted (map priority (queue (aq (addBatch items w))))
       \<and> (\<forall>p. map unstamped (filter (\<lambda>i. priority i = p) (queue (aq (addBatch items w))))
               = map unstamped (filter (\<lambda>i. priority i = p) (queue (aq w)))
                 @ map unstamped (filter (\<lambda>i. priority i = p)
                                    (filter (\<lambda>i. \<not> alreadyRun w i) items)))
       \<and> (\<not> alreadyRun w item \<longrightarrow>
            queue (aq (add item w)) =
              takeWhile (\<lambda>q. priority q \<le> priority item) (queue (aq w))
              @ item\<lparr>timestamp := Some (clock w (ticks w))\<rparr>
              # dropWhile (\<lambda>q. priority q \<le> priority item) (queue (aq w)))"
proof -
  have "\<not> alreadyRun w item \<longrightarrow>
          queue (aq (add item w)) =
            takeWhile (\<lambda>q. priority q \<le> priority item) (queue (aq w))
            @ item\<lparr>timestamp := Some (clock w (ticks w))\<rparr>
            # dropWhile (\<lambda>q. priority q \<le> priority item) (queue (aq w))"
    using add_queue [of w item] by (simp add: not_less)
  with addBatch_order [OF assms, of items] show ?thesis
    by blast
qed

text \<open>
  The theorem at the fresh queue and the three items of \<open>batch\<close>, added in the order m1,
  c1, m2: the critical one ends up first and the two of medium priority keep their order.
\<close>

theorem add_keeps_priority_order_witness:
  "sorted (map priority (queue (aq freshWorld)))
   \<and> sorted (map priority (queue (aq (addBatch batch freshWorld))))
   \<and> map unstamped (filter (\<lambda>i. priority i = MEDIUM) (queue (aq (addBatch batch freshWorld))))
       = [decorItem\<lparr>item_id := ''m1'', priority := MEDIUM\<rparr>,
          decorItem\<lparr>item_id := ''m2'', priority := MEDIUM\<rparr>]
   \<and> \<not> alreadyRun freshWorld decorItem
   \<and> queue (aq (add decorItem freshWorld)) = [decorItem\<lparr>timestamp := Some 0\<rparr>]"
proof -
  have s0: "sorted (map priority (queue (aq freshWorld)))"
    by (simp add: freshWorld_eq)
  have new: "\<And>i. \<not> alreadyRun freshWorld i"
    by (simp add: alreadyRun_def freshWorld_eq set_has_def map_has_def)
  have q0: "queue (aq freshWorld) = []" and t0: "clock freshWorld (ticks freshWorld) = 0"
    by (simp_all add: freshWorld_eq)
  note inst = add_keeps_priority_order [OF s0, of batch decorItem]
  from inst have sorted_after: "sorted (map priority (queue (aq (addBatch batch freshWorld))))"
    by blast
  from inst have "map unstamped (filter (\<lambda>i. priority i = MEDIUM) (queue (aq (addBatch batch freshWorld))))
               = map unstamped (filter (\<lambda>i. priority i = MEDIUM) (queue (aq freshWorld)))
                 @ map unstamped (filter (\<lambda>i. priority i = MEDIUM)
                                    (filter (\<lambda>i. \<not> alreadyRun freshWorld i) batch))"
    by blast
  then have fifo: "map unstamped (filter (\<lambda>i. priority i = MEDIUM) (queue (aq (addBatch batch freshWorld))))
       = [decorItem\<lparr>item_id := ''m1'', priority := MEDIUM\<rparr>,
          decorItem\<lparr>item_id := ''m2'', priority := MEDIUM\<rparr>]"
    by (simp add: new q0 batch_def unstamped_def decorItem_def MEDIUM_def CRITICAL_def)
  from inst new have "queue (aq (add decorItem freshWorld)) =
              takeWhile (\<lambda>q. priority q \<le> priority decorItem) (queue (aq freshWorld))
              @ decorItem\<lparr>timestamp := Some (clock freshWorld (ticks freshWorld))\<rparr>
              # dropWhile (\<lambda>q. priority q \<le> priority decorItem) (queue (aq freshWorld))"
    by blast
  then have one: "queue (aq (add decorItem freshWorld)) = [decorItem\<lparr>timestamp := Some 0\<rparr>]"
    by (simp add: q0 t0)
  show ?thesis
    using s0 sorted_after fifo new one by simp
qed

section \<open>Critical animations\<close>

text \<open>
  C5. In every state of the monitor (every quality level, every set of active animations)
  \<^verbatim>\<open>shouldSkipAnimation(AnimationPriority.CRITICAL)\<close> is false: a critical animation is
  never skipped.
\<close>

theorem critical_never_skipped: "shouldSkipAnimation m CRITICAL = False"
  by (cases "qualityLevel m") (simp_all add: shouldSkipAnimation_def CRITICAL_def MEDIUM_def HIGH_def)

section \<open>A failing animation\<close>








section \<open>Adding an item that has run\<close>

text \<open>
  C7. For an item whose id is in \<^verbatim>\<open>completedAnimations\<close> or in the executing map,
  \<^verbatim>\<open>add\<close> changes nothing: the queue, the executing map, the completed set and the
  monitor's registry of active animations, like all the rest of the state, are as before.
\<close>

theorem add_noop:
  assumes "set_has (item_id item) (completedAnimations (aq w))
           \<or> map_has (item_id item) (executing (aq w))"
  shows "add item w = w"
  using assms by (simp add: add_def)

text \<open>
  The theorem at an animation that has just completed in the fresh queue, and at one that
  is executing there, waiting for its promise.
\<close>

theorem add_noop_witness:
  "set_has (item_id decorItem) (completedAnimations (aq (executeAnimation decorItem freshWorld)))
   \<and> add decorItem (executeAnimation decorItem freshWorld) = executeAnimation decorItem freshWorld
   \<and> map_has (item_id pendingItem) (executing (aq (executeAnimation pendingItem freshWorld)))
   \<and> add pendingItem (executeAnimation pendingItem freshWorld) = executeAnimation pendingItem freshWorld"
proof -
  have completed: "set_has (item_id decorItem)
                     (completedAnimations (aq (executeAnimation decorItem freshWorld)))"
    by (simp add: executeAnimation_def afterExecute_def finishAnimation_def decorItem_def
        freshWorld_eq set_add_def set_has_def Let_def)
  have running: "map_has (item_id pendingItem) (executing (aq (executeAnimation pendingItem freshWorld)))"
    by (simp add: executeAnimation_def pendingItem_def decorItem_def freshWorld_eq map_has_def
        Let_def)
  show ?thesis
    using completed running
      add_noop [of decorItem "executeAnimation decorItem freshWorld"]
      add_noop [of pendingItem "executeAnimation pendingItem freshWorld"]
    by simp
qed

section \<open>The bound on the frame-time samples\<close>

lemma measure_frame_bounded:
  "length (frameTimings (pm w)) \<le> 60 \<Longrightarrow> length (frameTimings (pm (measure_frame t w))) \<le> 60"
  by (simp add: frameTimings_measure_frame)

lemma measure_frames_bounded:
  "length (frameTimings (pm w)) \<le> 60 \<Longrightarrow> length (frameTimings (pm (measure_frames ts w))) \<le> 60"
  unfolding measure_frames_def
  by (induction ts arbitrary: w) (simp_all add: measure_frame_bounded)

lemma measure_frame_quiet:
  assumes "length (frameTimings (pm (measure_frame t w))) \<noteq> 60"
  shows "notifications (pm (measure_frame t w)) = notifications (pm w)
     \<and> qualityLevel (pm (measure_frame t w)) = qualityLevel (pm w)
     \<and> animationBudget (pm (measure_frame t w)) = animationBudget (pm w)"
proof (cases "lastFrameTime (pm w) = 0")
  case True
  then show ?thesis
    by (simp add: measure_frame_def requestAnimationFrame_def Let_def)
next
  case False
  show ?thesis
  proof (cases "length (frameTimings (pm w)) \<ge> 60")
    case True
    with assms False have "length (frameTimings (pm w)) \<noteq> 60"
      by (simp add: frameTimings_measure_frame)
    with True False show ?thesis
      by (simp add: measure_frame_def requestAnimationFrame_def Let_def)
  next
    case False
    with assms \<open>lastFrameTime (pm w) \<noteq> 0\<close> have "length (frameTimings (pm w)) \<noteq> 59"
      by (simp add: frameTimings_measure_frame)
    with False \<open>lastFrameTime (pm w) \<noteq> 0\<close> show ?thesis
      by (simp add: measure_frame_def requestAnimationFrame_def Let_def)
  qed
qed

lemma measure_frame_full:
  assumes "lastFrameTime (pm w) \<noteq> 0" and "length (frameTimings (pm (measure_frame t w))) = 60"
  shows "length (notifications (pm (measure_frame t w))) = Suc (length (notifications (pm w)))
     \<and> droppedFrames (pm (measure_frame t w)) = 0"
proof (cases "length (frameTimings (pm w)) \<ge> 60")
  case True
  with assms have "length (frameTimings (pm w)) = 60"
    by (simp add: frameTimings_measure_frame)
  with assms show ?thesis
    by (simp add: measure_frame_def requestAnimationFrame_def notifyCallbacks_def Let_def
        adjustQuality_frameTimings adjustQuality_notifications adjustQuality_droppedFrames)
next
  case False
  with assms have "length (frameTimings (pm w)) = 59"
    by (simp add: frameTimings_measure_frame)
  with assms show ?thesis
    by (simp add: measure_frame_def requestAnimationFrame_def notifyCallbacks_def Let_def
        adjustQuality_frameTimings adjustQuality_notifications adjustQuality_droppedFrames)
qed

text \<open>
  C8. The buffer of frame-time samples is bounded. From a state with at most 60 samples
  (the initial state has none), after any sequence of measured frames the buffer holds at
  most 60 samples, and so it does after one more frame; a sample that arrives at a full
  buffer pushes the oldest one out; a frame after which the buffer does not hold exactly 60
  samples leaves the quality level, the animation budget and the subscribers alone; and a
  measured frame after which it holds exactly 60 has adjusted the quality (the count of
  dropped frames is back at 0) and notified the subscribers once.
\<close>

theorem frameTimings_bounded:
  assumes "length (frameTimings (pm w0)) \<le> 60"
  shows "(let w = measure_frames ts w0; w' = measure_frame t w
          in length (frameTimings (pm w)) \<le> 60
           \<and> length (frameTimings (pm w')) \<le> 60
           \<and> (lastFrameTime (pm w) \<noteq> 0 \<and> length (frameTimings (pm w)) = 60 \<longrightarrow>
                frameTimings (pm w') = tl (frameTimings (pm w)) @ [js_sub (Num t) (Num (lastFrameTime (pm w)))])
           \<and> (length (frameTimings (pm w')) \<noteq> 60 \<longrightarrow>
                notifications (pm w') = notifications (pm w)
                \<and> qualityLevel (pm w') = qualityLevel (pm w)
                \<and> animationBudget (pm w') = animationBudget (pm w))
           \<and> (lastFrameTime (pm w) \<noteq> 0 \<and> length (frameTimings (pm w')) = 60 \<longrightarrow>
                length (notifications (pm w')) = Suc (length (notifications (pm w)))
                \<and> droppedFrames (pm w') = 0))"
proof -
  define w where "w = measure_frames ts w0"
  have b: "length (frameTimings (pm w)) \<le> 60"
    unfolding w_def using assms by (rule measure_frames_bounded)
  have b': "length (frameTimings (pm (measure_frame t w))) \<le> 60"
    using b by (rule measure_frame_bounded)
  have shift: "lastFrameTime (pm w) \<noteq> 0 \<and> length (frameTimings (pm w)) = 60 \<longrightarrow>
      frameTimings (pm (measure_frame t w)) = tl (frameTimings (pm w)) @ [js_sub (Num t) (Num (lastFrameTime (pm w)))]"
    by (cases "frameTimings (pm w)") (auto simp: frameTimings_measure_frame)
  show ?thesis
    unfolding Let_def w_def [symmetric]
    using b b' shift measure_frame_quiet [of t w] measure_frame_full [of w t]
    by blast
qed

text \<open>
  The theorem at the full window of \<open>jankyTimestamps\<close> and a 62nd frame at 1730 ms, which
  shifts the first sample out and notifies; and at the very first frame, after which the
  buffer is empty and nobody has been notified.
\<close>

theorem frameTimings_bounded_witness:
  "length (frameTimings (pm freshWorld)) \<le> 60
   \<and> lastFrameTime (pm (measure_frames jankyTimestamps freshWorld)) \<noteq> 0
   \<and> length (frameTimings (pm (measure_frames jankyTimestamps freshWorld))) = 60
   \<and> length (frameTimings (pm (measure_frame 1730 (measure_frames jankyTimestamps freshWorld)))) = 60
   \<and> hd (frameTimings (pm (measure_frame 1730 (measure_frames jankyTimestamps freshWorld)))) = Num 40
   \<and> last (frameTimings (pm (measure_frame 1730 (measure_frames jankyTimestamps freshWorld)))) = Num 10
   \<and> length (notifications (pm (measure_frame 1730 (measure_frames jankyTimestamps freshWorld)))) = 2
   \<and> length (frameTimings (pm (measure_frame 1000 freshWorld))) \<noteq> 60
   \<and> notifications (pm (measure_frame 1000 freshWorld)) = []"
proof -
  let ?w = "measure_frames jankyTimestamps freshWorld"
  have fresh: "length (frameTimings (pm freshWorld)) \<le> 60"
    by (simp add: freshWorld_eq initialMonitor_def)
  have warm: "lastFrameTime (pm ?w) \<noteq> 0" and full: "length (frameTimings (pm ?w)) = 60"
    by (simp_all add: janky_run)
  from frameTimings_bounded [OF fresh, of jankyTimestamps 1730] warm full
  have shifted: "frameTimings (pm (measure_frame 1730 ?w))
                   = tl (frameTimings (pm ?w)) @ [js_sub (Num 1730) (Num (lastFrameTime (pm ?w)))]"
    unfolding Let_def by blast
  then have full': "length (frameTimings (pm (measure_frame 1730 ?w))) = 60"
    by (simp add: janky_run)
  from frameTimings_bounded [OF fresh, of jankyTimestamps 1730] warm full'
  have "length (notifications (pm (measure_frame 1730 ?w))) = Suc (length (notifications (pm ?w)))"
    unfolding Let_def by blast
  then have notified: "length (notifications (pm (measure_frame 1730 ?w))) = 2"
    by (simp add: janky_run)
  have first: "length (frameTimings (pm (measure_frame 1000 freshWorld))) \<noteq> 60"
    by (simp add: frameTimings_measure_frame freshWorld_eq initialMonitor_def)
  from frameTimings_bounded [OF fresh, of "[]" 1000] first
  have "notifications (pm (measure_frame 1000 freshWorld)) = notifications (pm freshWorld)"
    unfolding Let_def measure_frames_def by simp
  then have quiet: "notifications (pm (measure_frame 1000 freshWorld)) = []"
    by (simp add: freshWorld_eq initialMonitor_def)
  show ?thesis
    using fresh warm full full' notified first quiet
    by (simp add: shifted janky_run js_sub_def to_double_numeral)
qed

section \<open>Pausing the queue\<close>

text \<open>
  C9. \<^verbatim>\<open>pause\<close> sets \<^verbatim>\<open>isRunning\<close> to false, cancels the frame callback the queue has
  scheduled, if any, and sets \<^verbatim>\<open>rafId\<close> to null; the queued items, the executing map, the
  completed set, \<^verbatim>\<open>maxConcurrent\<close> and \<^verbatim>\<open>frameBudget\<close> are unchanged, and so is
  everything else. (A handle is never 0: \<^verbatim>\<open>requestAnimationFrame\<close> returns positive
  numbers.)
\<close>

theorem pause_only_cancels_frame:
  assumes "rafId (aq w) \<noteq> Some 0"
  shows "pause w =
           w\<lparr>aq := (aq w)\<lparr>isRunning := False, rafId := None\<rparr>,
             rafPending := filter (\<lambda>p. Some (fst p) \<noteq> rafId (aq w)) (rafPending w)\<rparr>
       \<and> isRunning (aq (pause w)) = False
       \<and> rafId (aq (pause w)) = None
       \<and> queue (aq (pause w)) = queue (aq w)
       \<and> executing (aq (pause w)) = executing (aq w)
       \<and> completedAnimations (aq (pause w)) = completedAnimations (aq w)
       \<and> maxConcurrent (aq (pause w)) = maxConcurrent (aq w)
       \<and> frameBudget (aq (pause w)) = frameBudget (aq w)"
proof -
  have eq: "pause w =
           w\<lparr>aq := (aq w)\<lparr>isRunning := False, rafId := None\<rparr>,
             rafPending := filter (\<lambda>p. Some (fst p) \<noteq> rafId (aq w)) (rafPending w)\<rparr>"
    using assms
    by (cases "rafId (aq w)") (simp_all add: pause_def cancelAnimationFrame_def Let_def)
  show ?thesis
    by (simp add: eq)
qed

text \<open>
  The theorem at the fresh queue once started: the frame callback with handle 2 is
  scheduled, and \<^verbatim>\<open>pause\<close> takes it back, leaving the monitor's callback pending.
\<close>

theorem pause_only_cancels_frame_witness:
  "rafId (aq (start freshWorld)) = Some 2
   \<and> isRunning (aq (start freshWorld))
   \<and> rafPending (start freshWorld) = [(1, MonitorMeasure), (2, QueueProcess)]
   \<and> pause (start freshWorld) = freshWorld\<lparr>rafLast := 2\<rparr>"
proof -
  have started: "start freshWorld =
      freshWorld\<lparr>aq := (aq freshWorld)\<lparr>isRunning := True, rafId := Some 2\<rparr>, rafLast := 2,
                 rafPending := [(1, MonitorMeasure), (2, QueueProcess)]\<rparr>"
    by (simp add: start_def processQueue_def requestAnimationFrame_def freshWorld_eq Let_def)
  then have handle: "rafId (aq (start freshWorld)) \<noteq> Some 0"
    by simp
  from pause_only_cancels_frame [OF handle]
  have "pause (start freshWorld) =
          (start freshWorld)\<lparr>aq := (aq (start freshWorld))\<lparr>isRunning := False, rafId := None\<rparr>,
             rafPending := filter (\<lambda>p. Some (fst p) \<noteq> rafId (aq (start freshWorld)))
                             (rafPending (start freshWorld))\<rparr>"
    by blast
  then have "pause (start freshWorld) = freshWorld\<lparr>rafLast := 2\<rparr>"
    unfolding started by (simp add: freshWorld_eq)
  then show ?thesis
    by (simp add: started)
qed

section \<open>Rendering on a server\<close>

text \<open>
  C10. Where \<^verbatim>\<open>window\<close> is undefined, \<^verbatim>\<open>prefersReducedMotion()\<close> returns false and
  \<^verbatim>\<open>isLowEndDevice()\<close> returns false, and neither throws, whatever else exists.
\<close>

theorem server_side_helpers:
  assumes "window g = None"
  shows "prefersReducedMotion g = Inr False \<and> isLowEndDevice g = Inr False"
  using assms by (simp add: prefersReducedMotion_def isLowEndDevice_def)

text \<open>The theorem on a server with neither \<^verbatim>\<open>window\<close> nor \<^verbatim>\<open>navigator\<close>.\<close>

theorem server_side_helpers_witness:
  "window serverGlobals = None
   \<and> prefersReducedMotion serverGlobals = Inr False
   \<and> isLowEndDevice serverGlobals = Inr False"
proof -
  have absent: "window serverGlobals = None"
    by (simp add: serverGlobals_def)
  from server_side_helpers [OF absent] absent show ?thesis
    by simp
qed

end
